theory Spec2Isabelle
  imports Main
begin

section \<open>JavaScript values\<close>

text \<open>
  The persister of \<^verbatim>\<open>examples/vue/persister/src/persister.ts\<close> wraps a query function:
  it looks a persisted record up in a storage, serves it when it is fresh, and otherwise
  runs the query function and writes the result back.

  A JavaScript \<^verbatim>\<open>number\<close> is a double. The numbers of this program are epoch
  milliseconds, ages and counters, so a finite number is modelled by an integer (both
  zeros are \<open>Fin 0\<close>), and the three values that are not finite are kept, since
  \<^verbatim>\<open>maxAge: Infinity\<close> is a usual configuration and \<^verbatim>\<open>NaN\<close> is falsy.
\<close>

datatype jsnum = Fin int | PosInf | NegInf | NaN

text \<open>
  The binary \<^verbatim>\<open>-\<close> of two numbers. On integers it is the exact difference, which is
  the difference of the doubles as long as the two operands and the result are integers
  a double holds (\<open>exact_num\<close> below); beyond \<^verbatim>\<open>2^53\<close> the subtraction of doubles
  rounds.
\<close>

fun num_sub :: "jsnum \<Rightarrow> jsnum \<Rightarrow> jsnum" where
  "num_sub NaN _ = NaN"
| "num_sub _ NaN = NaN"
| "num_sub (Fin a) (Fin b) = Fin (a - b)"
| "num_sub (Fin _) PosInf = NegInf"
| "num_sub (Fin _) NegInf = PosInf"
| "num_sub PosInf PosInf = NaN"
| "num_sub PosInf _ = PosInf"
| "num_sub NegInf NegInf = NaN"
| "num_sub NegInf _ = NegInf"

text \<open>The comparisons \<^verbatim>\<open>>\<close> and \<^verbatim>\<open><=\<close> of two numbers: false whenever one is \<^verbatim>\<open>NaN\<close>.\<close>

fun num_gt :: "jsnum \<Rightarrow> jsnum \<Rightarrow> bool" where
  "num_gt NaN _ = False"
| "num_gt _ NaN = False"
| "num_gt (Fin a) (Fin b) = (a > b)"
| "num_gt (Fin _) PosInf = False"
| "num_gt (Fin _) NegInf = True"
| "num_gt PosInf PosInf = False"
| "num_gt PosInf _ = True"
| "num_gt NegInf _ = False"

fun num_le :: "jsnum \<Rightarrow> jsnum \<Rightarrow> bool" where
  "num_le NaN _ = False"
| "num_le _ NaN = False"
| "num_le a b = (\<not> num_gt a b)"

text \<open>
  Every integer up to \<^verbatim>\<open>2^53\<close> in size is a double: on such integers, when their
  difference is one too, \<open>num_sub\<close> and the comparisons compute what the doubles do.
\<close>

definition exact_int :: "int \<Rightarrow> bool" where
  "exact_int n = (\<bar>n\<bar> \<le> 9007199254740992)"

fun exact_num :: "jsnum \<Rightarrow> bool" where
  "exact_num (Fin n) = exact_int n"
| "exact_num _ = True"

datatype jsval =
    JUndefined
  | JNull
  | JBool bool
  | JNum jsnum
  | JStr string
  | JArr "jsval list"
  | JObj "(string \<times> jsval) list"

text \<open>
  ToBoolean, which \<^verbatim>\<open>if (x)\<close> and \<^verbatim>\<open>!x\<close> apply: \<^verbatim>\<open>undefined\<close>, \<^verbatim>\<open>null\<close>,
  \<^verbatim>\<open>false\<close>, \<^verbatim>\<open>0\<close>, \<^verbatim>\<open>NaN\<close> and the empty string are falsy, everything else is truthy.
\<close>

fun truthy_num :: "jsnum \<Rightarrow> bool" where
  "truthy_num (Fin n) = (n \<noteq> 0)"
| "truthy_num NaN = False"
| "truthy_num _ = True"

fun truthy :: "jsval \<Rightarrow> bool" where
  "truthy JUndefined = False"
| "truthy JNull = False"
| "truthy (JBool b) = b"
| "truthy (JNum n) = truthy_num n"
| "truthy (JStr s) = (s \<noteq> [])"
| "truthy (JArr _) = True"
| "truthy (JObj _) = True"

section \<open>Calls, promises and \<^verbatim>\<open>await\<close>\<close>

text \<open>
  A thrown or rejected value is any JavaScript value. A call of a collaborator either
  throws synchronously, or returns; what it returns is a plain value or a promise, which
  settles as rejected (\<open>Inl\<close>) or fulfilled (\<open>Inr\<close>). Inside the \<^verbatim>\<open>async\<close> wrapper,
  \<^verbatim>\<open>await f(x)\<close> turns the synchronous throw and the rejection alike into the
  rejection of the wrapper's own promise; a call that is not awaited only passes its
  synchronous throw on.
\<close>

type_synonym error = jsval

datatype 'a call = Throws error | Returns "error + 'a"

fun await :: "'a call \<Rightarrow> error + 'a" where
  "await (Throws e) = Inl e"
| "await (Returns p) = p"

section \<open>The data model\<close>

text \<open>
  \<^verbatim>\<open>QueryState\<close> is imported from the query core; its fields are the ones the wrapper
  writes on lines 110 to 123.
\<close>

datatype queryStatus = Pending | Error | Success

datatype fetchStatus = Fetching | Paused | Idle

record queryState =
  data :: jsval
  dataUpdateCount :: jsnum
  dataUpdatedAt :: jsnum
  status :: queryStatus
  error :: jsval
  errorUpdateCount :: jsnum
  errorUpdatedAt :: jsnum
  fetchFailureCount :: jsnum
  fetchFailureReason :: jsval
  fetchMeta :: jsval
  fetchStatus :: fetchStatus
  isInvalidated :: bool

text \<open>
  \<^verbatim>\<open>PersistedQuery\<close> (lines 11 to 17). The record a lookup sees is what
  \<^verbatim>\<open>deserialize\<close> returned, cast by \<^verbatim>\<open>as PersistedQuery\<close>, so its \<^verbatim>\<open>timestamp\<close> may
  be absent at run time: \<open>None\<close> is the missing field (\<^verbatim>\<open>undefined\<close>). A value without
  the property, such as \<^verbatim>\<open>{}\<close> or a number, reads the same; no other field of it is
  read.
\<close>

record persistedQuery =
  buster :: string
  timestamp :: "jsnum option"
  queryHash :: string
  queryKey :: jsval
  state :: queryState

text \<open>Of \<^verbatim>\<open>QueryFunctionContext\<close> the wrapper reads the query key only.\<close>

record queryFunctionContext =
  queryKey :: jsval

text \<open>
  The collaborators act on a world \<open>'w\<close> (the storage's contents, the live query cache,
  the clock, whatever the query function reaches); each call takes the world and returns
  the new one. The wrapper is followed alone: what other tasks do to the world while it
  awaits is not modelled, each call works on the world the call before it left.

  \<^verbatim>\<open>AsyncStorage\<close> (lines 25 to 29) or a DOM \<^verbatim>\<open>Storage\<close>; \<^verbatim>\<open>getItem\<close> gives the
  stored string, or \<open>None\<close> for \<^verbatim>\<open>undefined\<close> or \<^verbatim>\<open>null\<close>.
\<close>

record 'w asyncStorage =
  getItem :: "string \<Rightarrow> 'w \<Rightarrow> string option call \<times> 'w"
  setItem :: "string \<Rightarrow> string \<Rightarrow> 'w \<Rightarrow> unit call \<times> 'w"
  removeItem :: "string \<Rightarrow> 'w \<Rightarrow> unit call \<times> 'w"

text \<open>
  Of the \<^verbatim>\<open>QueryClient\<close> the wrapper calls \<^verbatim>\<open>getQueryState(queryKey)\<close>, which
  gives the cached state or \<^verbatim>\<open>undefined\<close>, and
  \<^verbatim>\<open>getQueryCache().build(queryClient, {queryKey, queryHash}, state)\<close>.
\<close>

record 'w queryClient =
  getQueryState :: "jsval \<Rightarrow> 'w \<Rightarrow> queryState option"
  build :: "jsval \<Rightarrow> string \<Rightarrow> queryState \<Rightarrow> 'w \<Rightarrow> 'w"

text \<open>
  What the module takes from its surroundings: \<^verbatim>\<open>hashKey\<close> of the query core,
  \<^verbatim>\<open>Date.now()\<close> (whole epoch milliseconds; the clock may move with every reading), and
  the two defaults \<^verbatim>\<open>JSON.stringify\<close> and \<^verbatim>\<open>JSON.parse\<close>, here as they act on a
  \<^verbatim>\<open>PersistedQuery\<close>. A serializer or deserializer may throw, as \<^verbatim>\<open>JSON.parse\<close> does on
  a text that is not JSON and \<^verbatim>\<open>JSON.stringify\<close> on a \<^verbatim>\<open>BigInt\<close> or a cycle. What a
  deserializer returns need not be an object: \<open>None\<close> is \<^verbatim>\<open>null\<close> or \<^verbatim>\<open>undefined\<close>
  (\<^verbatim>\<open>JSON.parse\<close> of the text \<^verbatim>\<open>null\<close>), of which no property can be read.
  \<^verbatim>\<open>hashKey\<close>, \<^verbatim>\<open>Date.now\<close> and the two calls on the query client are taken to return.
\<close>

record 'w runtime =
  hashKey :: "jsval \<Rightarrow> string"
  Date_now :: "'w \<Rightarrow> int \<times> 'w"
  JSON_stringify :: "persistedQuery \<Rightarrow> error + string"
  JSON_parse :: "string \<Rightarrow> error + persistedQuery option"

text \<open>\<^verbatim>\<open>StoragePersisterOptions\<close> (lines 31 to 61); \<open>None\<close> is an option left out.\<close>

record 'w storagePersisterOptions =
  queryClient :: "'w queryClient"
  storage :: "'w asyncStorage option"
  serialize :: "(persistedQuery \<Rightarrow> error + string) option"
  deserialize :: "(string \<Rightarrow> error + persistedQuery option) option"
  buster :: "string option"
  maxAge :: "jsnum option"

text \<open>
  The calls the wrapper makes on its collaborators, in the order it makes them, each
  with what the call gave back.
\<close>

datatype event =
    GetItem string "string option call"
  | RemoveItem string "unit call"
  | SetItem string string "unit call"
  | Build jsval string queryState
  | QueryFn queryFunctionContext "jsval call"

section \<open>The wrapper\<close>

text \<open>The defaults of the destructured options (lines 67 to 70).\<close>

definition the_buster :: "'w storagePersisterOptions \<Rightarrow> string" where
  "the_buster opts = (case buster opts of None \<Rightarrow> [] | Some b \<Rightarrow> b)"

definition the_maxAge :: "'w storagePersisterOptions \<Rightarrow> jsnum" where
  "the_maxAge opts = (case maxAge opts of None \<Rightarrow> Fin (1000 * 60 * 60 * 24) | Some m \<Rightarrow> m)"

definition the_serialize ::
  "'w runtime \<Rightarrow> 'w storagePersisterOptions \<Rightarrow> persistedQuery \<Rightarrow> error + string" where
  "the_serialize rt opts = (case serialize opts of None \<Rightarrow> JSON_stringify rt | Some f \<Rightarrow> f)"

definition the_deserialize ::
  "'w runtime \<Rightarrow> 'w storagePersisterOptions \<Rightarrow> string \<Rightarrow> error + persistedQuery option" where
  "the_deserialize rt opts = (case deserialize opts of None \<Rightarrow> JSON_parse rt | Some f \<Rightarrow> f)"

text \<open>
  \<^verbatim>\<open>if (storedData)\<close> on line 79: \<^verbatim>\<open>undefined\<close>, \<^verbatim>\<open>null\<close> and the empty string
  are falsy; past the test, \<^verbatim>\<open>storedData\<close> is a string that is not empty.
\<close>

fun truthy_stored :: "string option \<Rightarrow> bool" where
  "truthy_stored None = False"
| "truthy_stored (Some s) = (s \<noteq> [])"

fun stored_text :: "string option \<Rightarrow> string" where
  "stored_text None = []"
| "stored_text (Some s) = s"

text \<open>
  \<^verbatim>\<open>if (persistedQuery.timestamp)\<close> on line 82, and the number the subtraction of
  line 83 takes the field for: a missing field reads \<^verbatim>\<open>undefined\<close>, which is falsy and
  which ToNumber turns into \<^verbatim>\<open>NaN\<close>.
\<close>

fun truthy_timestamp :: "jsnum option \<Rightarrow> bool" where
  "truthy_timestamp None = False"
| "truthy_timestamp (Some n) = truthy_num n"

fun to_number :: "jsnum option \<Rightarrow> jsnum" where
  "to_number None = NaN"
| "to_number (Some n) = n"

text \<open>
  Reading \<^verbatim>\<open>persistedQuery.timestamp\<close> on line 82 throws a \<^verbatim>\<open>TypeError\<close> when
  \<^verbatim>\<open>persistedQuery\<close> is \<^verbatim>\<open>null\<close> or \<^verbatim>\<open>undefined\<close>.
\<close>

definition TypeError :: error where
  "TypeError = JStr ''TypeError''"

text \<open>
  Lines 78 to 101, the body of the \<^verbatim>\<open>if\<close> of line 77, on the storage \<open>st\<close>. The result
  is the rejection of the wrapper (\<open>Inl\<close>), the value of the \<^verbatim>\<open>return\<close> of line 96
  (\<open>Inr (Some v)\<close>), or \<open>Inr None\<close> when control falls through to line 104; with it come
  the calls made and the world they leave. Nothing catches what \<^verbatim>\<open>deserialize\<close> throws
  on line 80, nor the \<^verbatim>\<open>TypeError\<close> of line 82.
\<close>

definition restore ::
  "'w runtime \<Rightarrow> 'w storagePersisterOptions \<Rightarrow> 'w asyncStorage \<Rightarrow> queryFunctionContext \<Rightarrow> 'w
    \<Rightarrow> (error + jsval option) \<times> event list \<times> 'w" where
  "restore rt opts st context w =
    (let queryHash = hashKey rt (queryFunctionContext.queryKey context) in
     (case getItem st queryHash w of (got, w1) \<Rightarrow>
       (case await got of
          Inl e \<Rightarrow> (Inl e, [GetItem queryHash got], w1)
        | Inr storedData \<Rightarrow>
            if truthy_stored storedData then
              (case the_deserialize rt opts (stored_text storedData) of
                 Inl e \<Rightarrow> (Inl e, [GetItem queryHash got], w1)
               | Inr None \<Rightarrow> (Inl TypeError, [GetItem queryHash got], w1)
               | Inr (Some persistedQuery) \<Rightarrow>
                   if truthy_timestamp (timestamp persistedQuery) then
                     (case Date_now rt w1 of (now, w2) \<Rightarrow>
                        (let expired =
                               num_gt (num_sub (Fin now) (to_number (timestamp persistedQuery)))
                                 (the_maxAge opts);
                             busted = (persistedQuery.buster persistedQuery \<noteq> the_buster opts)
                         in
                           if expired \<or> busted then
                             (case removeItem st queryHash w2 of (removed, w3) \<Rightarrow>
                                (case await removed of
                                   Inl e \<Rightarrow>
                                     (Inl e,
                                      [GetItem queryHash got, RemoveItem queryHash removed], w3)
                                 | Inr u \<Rightarrow>
                                     (Inr None,
                                      [GetItem queryHash got, RemoveItem queryHash removed], w3)))
                           else
                             (Inr (Some (data (state persistedQuery))),
                              [GetItem queryHash got,
                               Build (queryFunctionContext.queryKey context) queryHash
                                 (state persistedQuery)],
                              build (queryClient opts) (queryFunctionContext.queryKey context)
                                queryHash (state persistedQuery) w2)))
                   else
                     (case removeItem st queryHash w1 of (removed, w2) \<Rightarrow>
                        (case await removed of
                           Inl e \<Rightarrow>
                             (Inl e, [GetItem queryHash got, RemoveItem queryHash removed], w2)
                         | Inr u \<Rightarrow>
                             (Inr None, [GetItem queryHash got, RemoveItem queryHash removed], w2))))
            else (Inr None, [GetItem queryHash got], w1))))"

text \<open>\<^verbatim>\<open>!queryState?.data\<close> on line 77.\<close>

fun no_data :: "queryState option \<Rightarrow> bool" where
  "no_data None = True"
| "no_data (Some s) = (\<not> truthy (data s))"

text \<open>
  Lines 75 to 102: the lookup runs when the live cache holds no data for the key and a
  storage is configured.
\<close>

definition lookup ::
  "'w runtime \<Rightarrow> 'w storagePersisterOptions \<Rightarrow> queryFunctionContext \<Rightarrow> 'w
    \<Rightarrow> (error + jsval option) \<times> event list \<times> 'w" where
  "lookup rt opts context w =
    (let queryState = getQueryState (queryClient opts) (queryFunctionContext.queryKey context) w
     in
       (case storage opts of
          Some st \<Rightarrow>
            if no_data queryState then restore rt opts st context w else (Inr None, [], w)
        | None \<Rightarrow> (Inr None, [], w)))"

text \<open>
  The record of lines 109 to 128. The object literal reads the clock twice, first for
  \<^verbatim>\<open>dataUpdatedAt\<close>, then for \<^verbatim>\<open>timestamp\<close>.
\<close>

definition fresh_record ::
  "jsval \<Rightarrow> jsval \<Rightarrow> string \<Rightarrow> int \<Rightarrow> int \<Rightarrow> string \<Rightarrow> persistedQuery" where
  "fresh_record queryFnResult key hash updatedAt now b =
    \<lparr> persistedQuery.buster = b,
      persistedQuery.timestamp = Some (Fin now),
      persistedQuery.queryHash = hash,
      persistedQuery.queryKey = key,
      persistedQuery.state =
        \<lparr> data = queryFnResult,
          dataUpdateCount = Fin 0,
          dataUpdatedAt = Fin updatedAt,
          status = Success,
          error = JNull,
          errorUpdateCount = Fin 0,
          errorUpdatedAt = Fin 0,
          fetchFailureCount = Fin 0,
          fetchFailureReason = JNull,
          fetchMeta = JNull,
          fetchStatus = Idle,
          isInvalidated = False \<rparr> \<rparr>"

text \<open>
  Lines 106 to 132, once the query function has resolved. \<^verbatim>\<open>storage.setItem\<close> is
  called and not awaited: the promise it returns is dropped, whatever becomes of it.
\<close>

definition persist ::
  "'w runtime \<Rightarrow> 'w storagePersisterOptions \<Rightarrow> queryFunctionContext \<Rightarrow> jsval \<Rightarrow> 'w
    \<Rightarrow> (error + jsval) \<times> event list \<times> 'w" where
  "persist rt opts context queryFnResult w =
    (let queryHash = hashKey rt (queryFunctionContext.queryKey context) in
     (case storage opts of
        None \<Rightarrow> (Inr queryFnResult, [], w)
      | Some st \<Rightarrow>
          (case Date_now rt w of (updatedAt, w1) \<Rightarrow>
            (case Date_now rt w1 of (now, w2) \<Rightarrow>
              (case the_serialize rt opts
                      (fresh_record queryFnResult (queryFunctionContext.queryKey context)
                         queryHash updatedAt now (the_buster opts)) of
                 Inl e \<Rightarrow> (Inl e, [], w2)
               | Inr serialized \<Rightarrow>
                   (case setItem st queryHash serialized w2 of (sent, w3) \<Rightarrow>
                     (case sent of
                        Throws e \<Rightarrow> (Inl e, [SetItem queryHash serialized sent], w3)
                      | Returns p \<Rightarrow>
                          (Inr queryFnResult, [SetItem queryHash serialized sent], w3))))))))"

text \<open>Lines 104 to 132: the live fetch and the write-back.\<close>

definition fetch ::
  "'w runtime \<Rightarrow> 'w storagePersisterOptions
    \<Rightarrow> (queryFunctionContext \<Rightarrow> 'w \<Rightarrow> jsval call \<times> 'w) \<Rightarrow> queryFunctionContext \<Rightarrow> 'w
    \<Rightarrow> (error + jsval) \<times> event list \<times> 'w" where
  "fetch rt opts queryFn context w =
    (case queryFn context w of (fetched, w1) \<Rightarrow>
      (case await fetched of
         Inl e \<Rightarrow> (Inl e, [QueryFn context fetched], w1)
       | Inr queryFnResult \<Rightarrow>
           (case persist rt opts context queryFnResult w1 of
              (r, written, w2) \<Rightarrow> (r, QueryFn context fetched # written, w2))))"

text \<open>
  The function \<^verbatim>\<open>createPersister\<close> returns (lines 73 to 133), run on a world: the
  settlement of its promise, the calls it made, and the world after them.
\<close>

definition createPersister ::
  "'w runtime \<Rightarrow> 'w storagePersisterOptions
    \<Rightarrow> (queryFunctionContext \<Rightarrow> 'w \<Rightarrow> jsval call \<times> 'w) \<Rightarrow> queryFunctionContext \<Rightarrow> 'w
    \<Rightarrow> (error + jsval) \<times> event list \<times> 'w" where
  "createPersister rt opts queryFn context w =
    (case lookup rt opts context w of (looked, calls, w1) \<Rightarrow>
      (case looked of
         Inl e \<Rightarrow> (Inl e, calls, w1)
       | Inr (Some restored) \<Rightarrow> (Inr restored, calls, w1)
       | Inr None \<Rightarrow>
           (case fetch rt opts queryFn context w1 of
              (r, fetching, w2) \<Rightarrow> (r, calls @ fetching, w2))))"

text \<open>The calls of the query function among the calls made.\<close>

fun isQueryFn :: "event \<Rightarrow> bool" where
  "isQueryFn (QueryFn _ _) = True"
| "isQueryFn _ = False"

fun isSetItem :: "event \<Rightarrow> bool" where
  "isSetItem (SetItem _ _ _) = True"
| "isSetItem _ = False"

section \<open>A storage, a query cache and a clock in memory\<close>

text \<open>
  Collaborators to run the wrapper on: a world that holds the storage's items, the live
  cache's entries and a clock that moves by one millisecond at each reading. The storage
  never fails; \<^verbatim>\<open>build\<close> adds the query under its hash unless the cache has it, as the
  query cache of the core does. The options bring a serializer and a deserializer of
  their own: every record is written as \<open>''written''\<close>; the text \<open>''stored''\<close> reads as
  the record the options are made for, the text \<open>''null''\<close> as \<^verbatim>\<open>null\<close>, and on any
  other text the deserializer throws, as \<^verbatim>\<open>JSON.parse\<close> does on a text that is not
  JSON. The runs below never reach the JSON functions of this runtime, placeholders
  that write the same text and read none.
\<close>

record world =
  store :: "(string \<times> string) list"
  cache :: "(string \<times> queryState) list"
  clock :: int

definition memoryStorage :: "world asyncStorage" where
  "memoryStorage =
    \<lparr> getItem = (\<lambda>k w. (Returns (Inr (map_of (store w) k)), w)),
      setItem = (\<lambda>k v w. (Returns (Inr ()), w\<lparr>store := (k, v) # filter (\<lambda>p. fst p \<noteq> k) (store w)\<rparr>)),
      removeItem = (\<lambda>k w. (Returns (Inr ()), w\<lparr>store := filter (\<lambda>p. fst p \<noteq> k) (store w)\<rparr>)) \<rparr>"

fun keyText :: "jsval \<Rightarrow> string" where
  "keyText (JStr s) = s"
| "keyText _ = ''key''"

definition memoryClient :: "world queryClient" where
  "memoryClient =
    \<lparr> getQueryState = (\<lambda>key w. map_of (cache w) (keyText key)),
      build = (\<lambda>key hash st w.
        (case map_of (cache w) hash of
           None \<Rightarrow> w\<lparr>cache := (hash, st) # cache w\<rparr>
         | Some q \<Rightarrow> w)) \<rparr>"

definition memoryRuntime :: "world runtime" where
  "memoryRuntime =
    \<lparr> hashKey = keyText,
      Date_now = (\<lambda>w. (clock w, w\<lparr>clock := clock w + 1\<rparr>)),
      JSON_stringify = (\<lambda>r. Inr ''written''),
      JSON_parse = (\<lambda>s. Inl (JStr ''SyntaxError'')) \<rparr>"

definition storedRecord :: "jsnum option \<Rightarrow> string \<Rightarrow> persistedQuery" where
  "storedRecord ts b =
    \<lparr> persistedQuery.buster = b,
      persistedQuery.timestamp = ts,
      persistedQuery.queryHash = ''todos'',
      persistedQuery.queryKey = JStr ''todos'',
      persistedQuery.state =
        \<lparr> data = JStr ''cached'',
          dataUpdateCount = Fin 0,
          dataUpdatedAt = Fin 0,
          status = Success,
          error = JNull,
          errorUpdateCount = Fin 0,
          errorUpdatedAt = Fin 0,
          fetchFailureCount = Fin 0,
          fetchFailureReason = JNull,
          fetchMeta = JNull,
          fetchStatus = Idle,
          isInvalidated = False \<rparr> \<rparr>"

definition memoryOptions :: "persistedQuery \<Rightarrow> jsnum \<Rightarrow> world storagePersisterOptions" where
  "memoryOptions stored age =
    \<lparr> queryClient = memoryClient,
      storage = Some memoryStorage,
      serialize = Some (\<lambda>r. Inr ''written''),
      deserialize = Some (\<lambda>s.
        if s = ''stored'' then Inr (Some stored)
        else if s = ''null'' then Inr None
        else Inl (JStr ''SyntaxError'')),
      buster = Some ''v1'',
      maxAge = Some age \<rparr>"

definition todos :: queryFunctionContext where
  "todos = \<lparr> queryKey = JStr ''todos'' \<rparr>"

definition fetchTodos :: "queryFunctionContext \<Rightarrow> world \<Rightarrow> jsval call \<times> world" where
  "fetchTodos context w = (Returns (Inr (JStr ''fetched'')), w)"

definition world0 :: world where
  "world0 = \<lparr> store = [(''todos'', ''stored'')], cache = [], clock = 5000 \<rparr>"

text \<open>
  A storage that answers every call with a fixed result and keeps nothing, a query
  function that rejects, and a serializer that throws.
\<close>

definition stubStorage :: "string option call \<Rightarrow> unit call \<Rightarrow> unit call \<Rightarrow> world asyncStorage" where
  "stubStorage got removed sent =
    \<lparr> getItem = (\<lambda>k w. (got, w)),
      setItem = (\<lambda>k v w. (sent, w)),
      removeItem = (\<lambda>k w. (removed, w)) \<rparr>"

definition failTodos :: "queryFunctionContext \<Rightarrow> world \<Rightarrow> jsval call \<times> world" where
  "failTodos context w = (Returns (Inl (JStr ''offline'')), w)"

definition failSerialize :: "persistedQuery \<Rightarrow> error + string" where
  "failSerialize r = Inl (JStr ''TypeError'')"

section \<open>The default encoding: \<^verbatim>\<open>JSON.stringify\<close> and \<^verbatim>\<open>JSON.parse\<close>\<close>

text \<open>
  The defaults of lines 69 and 70 are built into the language. They are modelled here on
  the values of type \<open>jsval\<close>, after the abstract operations of the ECMAScript
  specification, with these limits: a string is a list of 8-bit characters, standing for
  code units below \<^verbatim>\<open>U+0100\<close>; a finite number is an integer, written in decimal digits
  as \<^verbatim>\<open>Number.prototype.toString\<close> writes the integers up to \<^verbatim>\<open>2^53 - 1\<close> in size; a
  \<open>JObj\<close> lists the properties of a plain object in the order of their creation (that
  integer-like keys enumerate first is not modelled); there are no functions, dates or
  \<^verbatim>\<open>toJSON\<close> methods, and no cycles.

  \<^verbatim>\<open>JSON.stringify(value)\<close> without replacer and indentation: \<^verbatim>\<open>undefined\<close> has no text
  (\<open>None\<close>); in an array it is written \<^verbatim>\<open>null\<close>, and a property that holds it is left
  out; a number that is not finite is written \<^verbatim>\<open>null\<close>.
\<close>

abbreviation dquote :: char where "dquote \<equiv> CHR 0x22"
abbreviation backslash :: char where "backslash \<equiv> CHR 0x5C"











text \<open>
  \<^verbatim>\<open>JSON.parse(text)\<close> without reviver: white space between the tokens is skipped, a
  repeated key keeps its first place and takes the last value, and a text that is not
  JSON throws a \<^verbatim>\<open>SyntaxError\<close>. A number with a fraction or an exponent and a
  \<^verbatim>\<open>\u\<close> escape from \<^verbatim>\<open>U+0100\<close> on denote values this model has no term for; the parser
  of the model answers them with an error of its own.
\<close>

definition SyntaxError :: error where
  "SyntaxError = JStr ''SyntaxError''"

definition Unmodelled :: error where
  "Unmodelled = JStr ''not modelled''"

definition is_ws :: "char \<Rightarrow> bool" where
  "is_ws c = (c = CHR 0x20 \<or> c = CHR 0x09 \<or> c = CHR 0x0A \<or> c = CHR 0x0D)"

fun skip_ws :: "string \<Rightarrow> string" where
  "skip_ws [] = []"
| "skip_ws (c # cs) = (if is_ws c then skip_ws cs else c # cs)"

definition is_digit :: "char \<Rightarrow> bool" where
  "is_digit c = (48 \<le> (of_char c :: nat) \<and> (of_char c :: nat) \<le> 57)"

definition digit_value :: "char \<Rightarrow> nat" where
  "digit_value c = of_char c - 48"

definition digits_value :: "string \<Rightarrow> nat" where
  "digits_value ds = foldl (\<lambda>a c. a * 10 + digit_value c) 0 ds"

definition hex_value :: "char \<Rightarrow> nat option" where
  "hex_value c =
    (let n = (of_char c :: nat) in
     if 48 \<le> n \<and> n \<le> 57 then Some (n - 48)
     else if 97 \<le> n \<and> n \<le> 102 then Some (n - 87)
     else if 65 \<le> n \<and> n \<le> 70 then Some (n - 55)
     else None)"

definition unescape :: "char \<Rightarrow> char option" where
  "unescape e =
    (if e = dquote then Some dquote
     else if e = backslash then Some backslash
     else if e = CHR ''/'' then Some CHR ''/''
     else if e = CHR ''b'' then Some (CHR 0x08)
     else if e = CHR ''f'' then Some (CHR 0x0C)
     else if e = CHR ''n'' then Some (CHR 0x0A)
     else if e = CHR ''r'' then Some (CHR 0x0D)
     else if e = CHR ''t'' then Some (CHR 0x09)
     else None)"

fun cons_char :: "char \<Rightarrow> error + string \<times> string \<Rightarrow> error + string \<times> string" where
  "cons_char c (Inl e) = Inl e"
| "cons_char c (Inr (s, rest)) = Inr (c # s, rest)"

fun parse_chars :: "string \<Rightarrow> error + string \<times> string" where
  "parse_chars [] = Inl SyntaxError"
| "parse_chars (c # cs) =
    (if c = dquote then Inr ([], cs)
     else if c = backslash then
       (case cs of
          [] \<Rightarrow> Inl SyntaxError
        | e # cs1 \<Rightarrow>
            if e = CHR ''u'' then
              (case cs1 of
                 h3 # h2 # h1 # h0 # cs2 \<Rightarrow>
                   (case (hex_value h3, hex_value h2, hex_value h1, hex_value h0) of
                      (Some x3, Some x2, Some x1, Some x0) \<Rightarrow>
                        if ((x3 * 16 + x2) * 16 + x1) * 16 + x0 < 256 then
                          cons_char (char_of (((x3 * 16 + x2) * 16 + x1) * 16 + x0))
                            (parse_chars cs2)
                        else Inl Unmodelled
                    | _ \<Rightarrow> Inl SyntaxError)
               | _ \<Rightarrow> Inl SyntaxError)
            else
              (case unescape e of
                 None \<Rightarrow> Inl SyntaxError
               | Some ch \<Rightarrow> cons_char ch (parse_chars cs1)))
     else if (of_char c :: nat) < 32 then Inl SyntaxError
     else cons_char c (parse_chars cs))"

definition parse_digits :: "bool \<Rightarrow> string \<Rightarrow> error + jsval \<times> string" where
  "parse_digits negative s =
    (let ds = takeWhile is_digit s; rest = dropWhile is_digit s in
     if ds = [] then Inl SyntaxError
     else if 1 < length ds \<and> take 1 ds = ''0'' then Inl SyntaxError
     else if take 1 rest = ''.'' \<or> take 1 rest = ''e'' \<or> take 1 rest = ''E'' then Inl Unmodelled
     else Inr (JNum (Fin (if negative then - int (digits_value ds) else int (digits_value ds))),
               rest))"

definition parse_literal :: "string \<Rightarrow> error + jsval \<times> string" where
  "parse_literal s =
    (if take 4 s = ''null'' then Inr (JNull, drop 4 s)
     else if take 4 s = ''true'' then Inr (JBool True, drop 4 s)
     else if take 5 s = ''false'' then Inr (JBool False, drop 5 s)
     else Inl SyntaxError)"

fun CreateDataProperty :: "(string \<times> jsval) list \<Rightarrow> string \<Rightarrow> jsval \<Rightarrow> (string \<times> jsval) list" where
  "CreateDataProperty [] k v = [(k, v)]"
| "CreateDataProperty (p # ps) k v =
    (if fst p = k then (k, v) # ps else p # CreateDataProperty ps k v)"

definition object_of_members :: "(string \<times> jsval) list \<Rightarrow> jsval" where
  "object_of_members ms = JObj (foldl (\<lambda>obj (k, v). CreateDataProperty obj k v) [] ms)"

text \<open>
  The grammar of values, as a recursive descent on the text; each function returns the
  value and the text behind it. The comparisons of lengths before the recursive calls of
  \<open>parse_elements\<close> and \<open>parse_members\<close> always hold (the text behind a comma is
  shorter than the text the elements began at) and make the termination evident; the
  lemmas \<open>parse_elements_unguarded\<close> and \<open>parse_members_unguarded\<close> below give
  the functions without them.
\<close>

lemma length_skip_ws [termination_simp]: "length (skip_ws s) \<le> length s"
  by (induction s) auto

function parse_value :: "string \<Rightarrow> error + jsval \<times> string"
  and parse_elements :: "string \<Rightarrow> error + jsval list \<times> string"
  and parse_members :: "string \<Rightarrow> error + (string \<times> jsval) list \<times> string" where
  "parse_value s =
    (case skip_ws s of
       [] \<Rightarrow> Inl SyntaxError
     | c # cs \<Rightarrow>
         if c = CHR ''{'' then
           (case skip_ws cs of
              [] \<Rightarrow> Inl SyntaxError
            | c1 # cs1 \<Rightarrow>
                if c1 = CHR ''}'' then Inr (JObj [], cs1)
                else
                  (case parse_members cs of
                     Inl e \<Rightarrow> Inl e
                   | Inr (ms, rest) \<Rightarrow> Inr (object_of_members ms, rest)))
         else if c = CHR ''['' then
           (case skip_ws cs of
              [] \<Rightarrow> Inl SyntaxError
            | c1 # cs1 \<Rightarrow>
                if c1 = CHR '']'' then Inr (JArr [], cs1)
                else
                  (case parse_elements cs of
                     Inl e \<Rightarrow> Inl e
                   | Inr (vs, rest) \<Rightarrow> Inr (JArr vs, rest)))
         else if c = dquote then
           (case parse_chars cs of
              Inl e \<Rightarrow> Inl e
            | Inr (str, rest) \<Rightarrow> Inr (JStr str, rest))
         else if c = CHR ''-'' then parse_digits True cs
         else if is_digit c then parse_digits False (c # cs)
         else parse_literal (c # cs))"
| "parse_elements s =
    (case parse_value s of
       Inl e \<Rightarrow> Inl e
     | Inr (v, rest) \<Rightarrow>
         (case skip_ws rest of
            [] \<Rightarrow> Inl SyntaxError
          | c # cs \<Rightarrow>
              if c = CHR '']'' then Inr ([v], cs)
              else if c = CHR '','' \<and> length cs < length s then
                (case parse_elements cs of
                   Inl e \<Rightarrow> Inl e
                 | Inr (vs, rest1) \<Rightarrow> Inr (v # vs, rest1))
              else Inl SyntaxError))"
| "parse_members s =
    (case skip_ws s of
       [] \<Rightarrow> Inl SyntaxError
     | q # cs \<Rightarrow>
         if q = dquote then
           (case parse_chars cs of
              Inl e \<Rightarrow> Inl e
            | Inr (k, rest) \<Rightarrow>
                (case skip_ws rest of
                   [] \<Rightarrow> Inl SyntaxError
                 | colon # cs1 \<Rightarrow>
                     if colon = CHR '':'' \<and> length cs1 < length s then
                       (case parse_value cs1 of
                          Inl e \<Rightarrow> Inl e
                        | Inr (v, rest1) \<Rightarrow>
                            (case skip_ws rest1 of
                               [] \<Rightarrow> Inl SyntaxError
                             | c # cs2 \<Rightarrow>
                                 if c = CHR ''}'' then Inr ([(k, v)], cs2)
                                 else if c = CHR '','' \<and> length cs2 < length s then
                                   (case parse_members cs2 of
                                      Inl e \<Rightarrow> Inl e
                                    | Inr (ms, rest2) \<Rightarrow> Inr ((k, v) # ms, rest2))
                                 else Inl SyntaxError))
                     else Inl SyntaxError))
         else Inl SyntaxError)"
  by pat_completeness auto
termination
proof (relation "measure (\<lambda>x. case x of
    Inl s \<Rightarrow> 2 * length s
  | Inr (Inl s) \<Rightarrow> 2 * length s + 1
  | Inr (Inr s) \<Rightarrow> 2 * length s + 1)", goal_cases)
  case 1
  show ?case by simp
next
  case (2 s c cs c1 cs1)
  have "length (skip_ws s) \<le> length s" by (rule length_skip_ws)
  with 2 show ?case by simp
next
  case (3 s c cs c1 cs1)
  have "length (skip_ws s) \<le> length s" by (rule length_skip_ws)
  with 3 show ?case by simp
qed simp_all

declare parse_value.simps [simp del] parse_elements.simps [simp del] parse_members.simps [simp del]







text \<open>
  Two properties of texts the proofs below use: the text behind a value begins with a
  delimiter or is empty, and the text of a value begins with a character that is neither
  white space nor a closing bracket.
\<close>

definition delimited :: "string \<Rightarrow> bool" where
  "delimited rest =
    (case rest of [] \<Rightarrow> True | c # cs \<Rightarrow> c = CHR '','' \<or> c = CHR '']'' \<or> c = CHR ''}'')"

definition starts_value :: "string \<Rightarrow> bool" where
  "starts_value t = (case t of [] \<Rightarrow> False | c # cs \<Rightarrow> \<not> is_ws c \<and> c \<noteq> CHR '']'' \<and> c \<noteq> CHR ''}'')"

section \<open>The phases of a run\<close>

lemmas runs = createPersister_def lookup_def restore_def fetch_def persist_def Let_def

lemmas fixtures =
  memoryStorage_def memoryClient_def memoryRuntime_def storedRecord_def memoryOptions_def
  todos_def fetchTodos_def world0_def the_buster_def the_maxAge_def the_serialize_def
  the_deserialize_def

lemma createPersister_fallthrough:
  "lookup rt opts ctx w = (Inr None, calls, w1) \<Longrightarrow>
   createPersister rt opts queryFn ctx w =
     (case fetch rt opts queryFn ctx w1 of (r, fetching, w2) \<Rightarrow> (r, calls @ fetching, w2))"
  by (simp add: createPersister_def)

lemma createPersister_restored:
  "lookup rt opts ctx w = (Inr (Some v), calls, w1) \<Longrightarrow>
   createPersister rt opts queryFn ctx w = (Inr v, calls, w1)"
  by (simp add: createPersister_def)

lemma createPersister_rejected:
  "lookup rt opts ctx w = (Inl e, calls, w1) \<Longrightarrow>
   createPersister rt opts queryFn ctx w = (Inl e, calls, w1)"
  by (simp add: createPersister_def)

lemma lookup_no_storage: "storage opts = None \<Longrightarrow> lookup rt opts ctx w = (Inr None, [], w)"
  by (simp add: lookup_def)

lemma lookup_restore:
  "storage opts = Some st \<Longrightarrow>
   no_data (getQueryState (queryClient opts) (queryFunctionContext.queryKey ctx) w) \<Longrightarrow>
   lookup rt opts ctx w = restore rt opts st ctx w"
  by (simp add: lookup_def)

lemma fetch_calls:
  "\<exists>written. fst (snd (fetch rt opts queryFn ctx w)) =
      QueryFn ctx (fst (queryFn ctx w)) # written \<and> filter isQueryFn written = []"
  by (auto simp: fetch_def persist_def Let_def split: prod.splits sum.splits option.splits call.splits)

lemma fetch_once: "length (filter isQueryFn (fst (snd (fetch rt opts queryFn ctx w)))) = 1"
  using fetch_calls [of rt opts queryFn ctx w] by auto

lemma restore_found:
  assumes "queryFunctionContext.queryKey ctx = key" and "hashKey rt key = h"
    and "getItem st h w = (got, w1)"
    and "await got = Inr (Some s)" and "s \<noteq> []"
    and "the_deserialize rt opts s = Inr (Some pq)"
  shows "restore rt opts st ctx w =
    (if truthy_timestamp (timestamp pq) then
       (case Date_now rt w1 of (now, w2) \<Rightarrow>
          if num_gt (num_sub (Fin now) (to_number (timestamp pq))) (the_maxAge opts)
             \<or> persistedQuery.buster pq \<noteq> the_buster opts
          then
            (case removeItem st h w2 of
               (removed, w3) \<Rightarrow>
                 (case await removed of
                    Inl e \<Rightarrow> (Inl e, [GetItem h got, RemoveItem h removed], w3)
                  | Inr u \<Rightarrow> (Inr None, [GetItem h got, RemoveItem h removed], w3)))
          else
            (Inr (Some (data (state pq))), [GetItem h got, Build key h (state pq)],
             build (queryClient opts) key h (state pq) w2))
     else
       (case removeItem st h w1 of
          (removed, w2) \<Rightarrow>
            (case await removed of
               Inl e \<Rightarrow> (Inl e, [GetItem h got, RemoveItem h removed], w2)
             | Inr u \<Rightarrow> (Inr None, [GetItem h got, RemoveItem h removed], w2))))"
  using assms by (simp add: restore_def Let_def split: prod.splits)

lemma restore_thrown:
  assumes "queryFunctionContext.queryKey ctx = key" and "hashKey rt key = h"
    and "getItem st h w = (got, w1)"
    and "await got = Inr (Some s)" and "s \<noteq> []"
    and "the_deserialize rt opts s = Inl e"
  shows "restore rt opts st ctx w = (Inl e, [GetItem h got], w1)"
  using assms by (simp add: restore_def Let_def)

lemma restore_null:
  assumes "queryFunctionContext.queryKey ctx = key" and "hashKey rt key = h"
    and "getItem st h w = (got, w1)"
    and "await got = Inr (Some s)" and "s \<noteq> []"
    and "the_deserialize rt opts s = Inr None"
  shows "restore rt opts st ctx w = (Inl TypeError, [GetItem h got], w1)"
  using assms by (simp add: restore_def Let_def)

lemma discard_then_fetch:
  assumes "lookup rt opts ctx w =
      (case await removed of
         Inl e \<Rightarrow> (Inl e, cs, w3)
       | Inr u \<Rightarrow> (Inr None, cs, w3))"
  shows "createPersister rt opts queryFn ctx w =
      (case await removed of
         Inl e \<Rightarrow> (Inl e, cs, w3)
       | Inr u \<Rightarrow>
           (case fetch rt opts queryFn ctx w3 of
              (r, fetching, w4) \<Rightarrow> (r, cs @ fetching, w4)))"
  using assms by (simp add: createPersister_def split: sum.splits)

lemma fetch_no_storage:
  "storage opts = None \<Longrightarrow> queryFn ctx w = (fetched, w1) \<Longrightarrow>
   fetch rt opts queryFn ctx w = (await fetched, [QueryFn ctx fetched], w1)"
  by (simp add: fetch_def persist_def split: sum.splits)

lemma not_in_filtered: "filter P xs = [] \<Longrightarrow> P x \<Longrightarrow> x \<notin> set xs"
  by (auto simp: filter_empty_conv)

lemma fetch_rejected:
  "queryFn ctx w = (fetched, w1) \<Longrightarrow> await fetched = Inl e \<Longrightarrow>
   fetch rt opts queryFn ctx w = (Inl e, [QueryFn ctx fetched], w1)"
  by (simp add: fetch_def)

lemma fetch_resolved:
  assumes "queryFn ctx w1 = (fetched, w2)" and "await fetched = Inr v"
    and "storage opts = Some st"
    and "queryFunctionContext.queryKey ctx = key" and "hashKey rt key = h"
    and "Date_now rt w2 = (updatedAt, w3)" and "Date_now rt w3 = (now, w4)"
  shows "fetch rt opts queryFn ctx w1 =
      (case the_serialize rt opts (fresh_record v key h updatedAt now (the_buster opts)) of
         Inl e \<Rightarrow> (Inl e, [QueryFn ctx fetched], w4)
       | Inr serialized \<Rightarrow>
           (case setItem st h serialized w4 of
              (sent, w5) \<Rightarrow>
                ((case sent of Throws e \<Rightarrow> Inl e | Returns p \<Rightarrow> Inr v),
                 [QueryFn ctx fetched, SetItem h serialized sent], w5)))"
  using assms
  by (simp add: fetch_def persist_def Let_def split: call.splits sum.splits prod.splits)

lemma restore_calls:
  "restore rt opts st ctx w = (x, cs, w1) \<Longrightarrow>
   filter isQueryFn cs = [] \<and> filter isSetItem cs = []"
  by (auto simp: restore_def Let_def split: prod.splits sum.splits option.splits if_splits)

lemma lookup_calls:
  "lookup rt opts ctx w = (x, cs, w1) \<Longrightarrow>
   filter isQueryFn cs = [] \<and> filter isSetItem cs = []"
  by (auto simp: lookup_def Let_def dest: restore_calls split: option.splits if_splits)

lemma lookup_found:
  assumes "storage opts = Some st"
    and "queryFunctionContext.queryKey ctx = key" and "hashKey rt key = h"
    and "no_data (getQueryState (queryClient opts) key w)"
    and "getItem st h w = (got, w1)"
    and "await got = Inr (Some s)" and "s \<noteq> []"
    and "the_deserialize rt opts s = Inr (Some pq)"
    and "Date_now rt w1 = (now, w2)"
    and "removeItem st h (if truthy_timestamp (timestamp pq) then w2 else w1) = (removed, w3)"
  shows "lookup rt opts ctx w =
      (if truthy_timestamp (timestamp pq) then
         if num_gt (num_sub (Fin now) (to_number (timestamp pq))) (the_maxAge opts)
            \<or> persistedQuery.buster pq \<noteq> the_buster opts
         then
           (case await removed of
              Inl e \<Rightarrow> (Inl e, [GetItem h got, RemoveItem h removed], w3)
            | Inr u \<Rightarrow> (Inr None, [GetItem h got, RemoveItem h removed], w3))
         else
           (Inr (Some (data (state pq))), [GetItem h got, Build key h (state pq)],
            build (queryClient opts) key h (state pq) w2)
       else
         (case await removed of
            Inl e \<Rightarrow> (Inl e, [GetItem h got, RemoveItem h removed], w3)
          | Inr u \<Rightarrow> (Inr None, [GetItem h got, RemoveItem h removed], w3)))"
proof (cases "truthy_timestamp (timestamp pq)")
  case True
  with assms show ?thesis
    by (simp add: lookup_restore restore_found [OF assms(2,3,5,6,7,8)])
next
  case False
  with assms show ?thesis
    by (simp add: lookup_restore restore_found [OF assms(2,3,5,6,7,8)])
qed

lemma unstamped_then_fetch:
  assumes "storage opts = Some st"
    and "queryFunctionContext.queryKey ctx = key" and "hashKey rt key = h"
    and "no_data (getQueryState (queryClient opts) key w)"
    and "getItem st h w = (got, w1)"
    and "await got = Inr (Some s)" and "s \<noteq> []"
    and "the_deserialize rt opts s = Inr (Some pq)"
    and "\<not> truthy_timestamp (timestamp pq)"
    and "removeItem st h w1 = (removed, w2)"
    and "await removed = Inr u"
  shows "createPersister rt opts queryFn ctx w =
      (case fetch rt opts queryFn ctx w2 of
         (r, fetching, w3) \<Rightarrow> (r, [GetItem h got, RemoveItem h removed] @ fetching, w3))"
proof -
  obtain now w' where clock: "Date_now rt w1 = (now, w')"
    by (cases "Date_now rt w1")
  have "removeItem st h (if truthy_timestamp (timestamp pq) then w' else w1) = (removed, w2)"
    using assms(9,10) by simp
  from lookup_found [OF assms(1-8) clock this]
  have "lookup rt opts ctx w = (Inr None, [GetItem h got, RemoveItem h removed], w2)"
    using assms(9,11) by simp
  then show ?thesis
    by (rule createPersister_fallthrough)
qed

lemma restore_failures:
  assumes "restore rt opts st ctx w = (x, cs, w1)"
  shows "(GetItem k got \<in> set cs \<longrightarrow> await got = Inl e \<longrightarrow> x = Inl e)
    \<and> (RemoveItem k removed \<in> set cs \<longrightarrow> await removed = Inl e \<longrightarrow> x = Inl e)"
  using assms
  by (auto simp: restore_def Let_def split: prod.splits sum.splits option.splits if_splits)

lemma lookup_failures:
  assumes "lookup rt opts ctx w = (x, cs, w1)"
  shows "(GetItem k got \<in> set cs \<longrightarrow> await got = Inl e \<longrightarrow> x = Inl e)
    \<and> (RemoveItem k removed \<in> set cs \<longrightarrow> await removed = Inl e \<longrightarrow> x = Inl e)"
proof (cases "storage opts")
  case None
  with assms show ?thesis
    by (simp add: lookup_def)
next
  case (Some st)
  show ?thesis
  proof (cases "no_data (getQueryState (queryClient opts) (queryFunctionContext.queryKey ctx) w)")
    case True
    with Some assms have "restore rt opts st ctx w = (x, cs, w1)"
      by (simp add: lookup_def)
    then show ?thesis
      by (rule restore_failures)
  next
    case False
    with Some assms show ?thesis
      by (auto simp: lookup_def)
  qed
qed

lemma fetch_failures:
  assumes "fetch rt opts queryFn ctx w = (r, cs, w1)"
  shows "(\<forall>k got. GetItem k got \<notin> set cs) \<and> (\<forall>k removed. RemoveItem k removed \<notin> set cs)
    \<and> (SetItem k v (Throws e) \<in> set cs \<longrightarrow> r = Inl e)"
  using assms
  by (auto simp: fetch_def persist_def Let_def split: prod.splits sum.splits option.splits call.splits)

section \<open>A fresh record is served from the storage\<close>

text \<open>
  C1, as the specification states it, asks of a record found in the storage only that
  its timestamp is present, that its age is at most \<^verbatim>\<open>maxAge\<close> and that its buster is
  the configured one. Line 82 tests the timestamp for truthiness, so a record stamped
  \<^verbatim>\<open>0\<close> meets all three conditions and is removed all the same: with
  \<^verbatim>\<open>maxAge: Infinity\<close> the record stamped \<^verbatim>\<open>0\<close> is removed, the query function runs and
  its result is written back.
\<close>

theorem zero_timestamp_counterexample:
  "persistedQuery.timestamp (storedRecord (Some (Fin 0)) ''v1'') = Some (Fin 0)
   \<and> num_le (num_sub (Fin 5000) (Fin 0)) PosInf
   \<and> persistedQuery.buster (storedRecord (Some (Fin 0)) ''v1'')
       = the_buster (memoryOptions (storedRecord (Some (Fin 0)) ''v1'') PosInf)
   \<and> createPersister memoryRuntime (memoryOptions (storedRecord (Some (Fin 0)) ''v1'') PosInf)
        fetchTodos todos world0
     = (Inr (JStr ''fetched''),
        [GetItem ''todos'' (Returns (Inr (Some ''stored''))),
         RemoveItem ''todos'' (Returns (Inr ())),
         QueryFn todos (Returns (Inr (JStr ''fetched''))),
         SetItem ''todos'' ''written'' (Returns (Inr ()))],
        \<lparr> store = [(''todos'', ''written'')], cache = [], clock = 5002 \<rparr>)"
  by (simp add: createPersister_def lookup_def restore_def fetch_def persist_def Let_def fixtures)

text \<open>
  C1, amended: when the live cache holds no data for the key, a storage is configured,
  \<^verbatim>\<open>getItem\<close> gives a string that is not empty and \<^verbatim>\<open>deserialize\<close> gives a record
  whose timestamp is truthy (present, not \<^verbatim>\<open>0\<close>, not \<^verbatim>\<open>NaN\<close>), whose age is at most
  \<^verbatim>\<open>maxAge\<close> and whose buster is the configured one, the wrapper resolves with the
  data of the persisted state; its only calls are \<^verbatim>\<open>getItem\<close> and \<^verbatim>\<open>build\<close> with the
  persisted state: the query function is not called, nothing is written to the storage
  and nothing is removed from it.
\<close>

theorem fresh_record_served:
  assumes "storage opts = Some st"
    and "queryFunctionContext.queryKey ctx = key" and "hashKey rt key = h"
    and "no_data (getQueryState (queryClient opts) key w)"
    and "getItem st h w = (got, w1)"
    and "await got = Inr (Some s)" and "s \<noteq> []"
    and "the_deserialize rt opts s = Inr (Some pq)"
    and "truthy_timestamp (timestamp pq)"
    and "Date_now rt w1 = (now, w2)"
    and "num_le (num_sub (Fin now) (to_number (timestamp pq))) (the_maxAge opts)"
    and "persistedQuery.buster pq = the_buster opts"
  shows "createPersister rt opts queryFn ctx w =
      (Inr (data (state pq)), [GetItem h got, Build key h (state pq)],
       build (queryClient opts) key h (state pq) w2)"
proof -
  have "\<not> num_gt (num_sub (Fin now) (to_number (timestamp pq))) (the_maxAge opts)"
    using assms(11) by (cases "(num_sub (Fin now) (to_number (timestamp pq)), the_maxAge opts)" rule: num_le.cases) auto
  then have "restore rt opts st ctx w =
      (Inr (Some (data (state pq))), [GetItem h got, Build key h (state pq)],
       build (queryClient opts) key h (state pq) w2)"
    using assms by (simp add: restore_found [OF assms(2,3,5,6,7,8)])
  then show ?thesis
    using assms by (simp add: lookup_restore createPersister_restored)
qed

theorem fresh_record_served_witness:
  "createPersister memoryRuntime (memoryOptions (storedRecord (Some (Fin 4500)) ''v1'') (Fin 1000))
        fetchTodos todos world0
     = (Inr (JStr ''cached''),
        [GetItem ''todos'' (Returns (Inr (Some ''stored''))),
         Build (JStr ''todos'') ''todos'' (persistedQuery.state (storedRecord (Some (Fin 4500)) ''v1''))],
        \<lparr> store = [(''todos'', ''stored'')],
          cache = [(''todos'', persistedQuery.state (storedRecord (Some (Fin 4500)) ''v1''))],
          clock = 5001 \<rparr>)"
  using fresh_record_served [of "memoryOptions (storedRecord (Some (Fin 4500)) ''v1'') (Fin 1000)"
      memoryStorage todos "JStr ''todos''" memoryRuntime "''todos''" world0
      "Returns (Inr (Some ''stored''))" world0 "''stored''" "storedRecord (Some (Fin 4500)) ''v1''"
      5000 "world0\<lparr>clock := 5001\<rparr>" fetchTodos]
  by (simp add: fixtures)

section \<open>No storage\<close>

text \<open>
  C7: when no storage is configured, the wrapper calls the query function and nothing
  else, and settles as the query function does.
\<close>

theorem no_storage_only_fetches:
  assumes "storage opts = None" and "queryFn ctx w = (fetched, w1)"
  shows "createPersister rt opts queryFn ctx w = (await fetched, [QueryFn ctx fetched], w1)"
  using assms by (simp add: createPersister_fallthrough [OF lookup_no_storage] fetch_no_storage)

theorem no_storage_only_fetches_witness:
  "createPersister memoryRuntime
      ((memoryOptions (storedRecord (Some (Fin 4500)) ''v1'') (Fin 1000))\<lparr>storage := None\<rparr>)
      fetchTodos todos world0
    = (Inr (JStr ''fetched''), [QueryFn todos (Returns (Inr (JStr ''fetched'')))], world0)"
  using no_storage_only_fetches
    [of "(memoryOptions (storedRecord (Some (Fin 4500)) ''v1'') (Fin 1000))\<lparr>storage := None\<rparr>"
      fetchTodos todos world0 "Returns (Inr (JStr ''fetched''))" world0 memoryRuntime]
  by (simp add: fixtures)

section \<open>Expired and busted records\<close>

text \<open>
  C2: for a record found in the storage (the live cache holds no data for the key, a
  storage is configured, \<^verbatim>\<open>getItem\<close> gives a string that is not empty and
  \<^verbatim>\<open>deserialize\<close> gives the record) whose age \<^verbatim>\<open>now - timestamp\<close> is greater than
  \<^verbatim>\<open>maxAge\<close>, the wrapper calls \<^verbatim>\<open>removeItem\<close> right after \<^verbatim>\<open>getItem\<close>; when the
  removal resolves, it goes on with lines 104 to 132, which call the query function first
  and exactly once (when the removal rejects, so does the wrapper). The removal happens
  in the world after the clock reading of line 83, or, for a timestamp that line 82
  finds falsy, in the world after \<^verbatim>\<open>getItem\<close>. A record whose age is \<^verbatim>\<open>maxAge\<close> exactly
  is not expired: with a truthy timestamp and the configured buster it is served.

  The age is the one line 83 computes, a difference of doubles. The clock reading, the
  timestamp, their difference and \<^verbatim>\<open>maxAge\<close> are taken to be integers up to \<^verbatim>\<open>2^53\<close> in
  size, or not finite: there the difference of the doubles is the exact one, which
  \<open>num_sub\<close> computes.
\<close>

theorem expired_record_removed:
  assumes "storage opts = Some st"
    and "queryFunctionContext.queryKey ctx = key" and "hashKey rt key = h"
    and "no_data (getQueryState (queryClient opts) key w)"
    and "getItem st h w = (got, w1)"
    and "await got = Inr (Some s)" and "s \<noteq> []"
    and "the_deserialize rt opts s = Inr (Some pq)"
    and "Date_now rt w1 = (now, w2)"
    and "removeItem st h (if truthy_timestamp (timestamp pq) then w2 else w1) = (removed, w3)"
    and "exact_int now" and "exact_num (to_number (timestamp pq))"
    and "exact_num (num_sub (Fin now) (to_number (timestamp pq)))"
    and "exact_num (the_maxAge opts)"
  shows "(num_gt (num_sub (Fin now) (to_number (timestamp pq))) (the_maxAge opts) \<longrightarrow>
            createPersister rt opts queryFn ctx w =
              (case await removed of
                 Inl e \<Rightarrow> (Inl e, [GetItem h got, RemoveItem h removed], w3)
               | Inr u \<Rightarrow>
                   (case fetch rt opts queryFn ctx w3 of
                      (r, fetching, w4) \<Rightarrow>
                        (r, [GetItem h got, RemoveItem h removed] @ fetching, w4)))
            \<and> hd (fst (snd (fetch rt opts queryFn ctx w3)))
                = QueryFn ctx (fst (queryFn ctx w3))
            \<and> length (filter isQueryFn (fst (snd (fetch rt opts queryFn ctx w3)))) = 1)
       \<and> (num_sub (Fin now) (to_number (timestamp pq)) = the_maxAge opts
            \<and> truthy_timestamp (timestamp pq)
            \<and> persistedQuery.buster pq = the_buster opts \<longrightarrow>
            createPersister rt opts queryFn ctx w =
              (Inr (data (state pq)), [GetItem h got, Build key h (state pq)],
               build (queryClient opts) key h (state pq) w2))"
proof (intro conjI impI)
  have found: "lookup rt opts ctx w =
        (if truthy_timestamp (timestamp pq) then
           if num_gt (num_sub (Fin now) (to_number (timestamp pq))) (the_maxAge opts)
              \<or> persistedQuery.buster pq \<noteq> the_buster opts
           then
             (case await removed of
                Inl e \<Rightarrow> (Inl e, [GetItem h got, RemoveItem h removed], w3)
              | Inr u \<Rightarrow> (Inr None, [GetItem h got, RemoveItem h removed], w3))
           else
             (Inr (Some (data (state pq))), [GetItem h got, Build key h (state pq)],
              build (queryClient opts) key h (state pq) w2)
         else
           (case await removed of
              Inl e \<Rightarrow> (Inl e, [GetItem h got, RemoveItem h removed], w3)
            | Inr u \<Rightarrow> (Inr None, [GetItem h got, RemoveItem h removed], w3)))"
    using assms(1-10) by (rule lookup_found)
  {
    assume expired: "num_gt (num_sub (Fin now) (to_number (timestamp pq))) (the_maxAge opts)"
    with found have "lookup rt opts ctx w =
        (case await removed of
           Inl e \<Rightarrow> (Inl e, [GetItem h got, RemoveItem h removed], w3)
         | Inr u \<Rightarrow> (Inr None, [GetItem h got, RemoveItem h removed], w3))"
      by simp
    then show "createPersister rt opts queryFn ctx w =
        (case await removed of
           Inl e \<Rightarrow> (Inl e, [GetItem h got, RemoveItem h removed], w3)
         | Inr u \<Rightarrow>
             (case fetch rt opts queryFn ctx w3 of
                (r, fetching, w4) \<Rightarrow> (r, [GetItem h got, RemoveItem h removed] @ fetching, w4)))"
      by (rule discard_then_fetch)
    show "hd (fst (snd (fetch rt opts queryFn ctx w3)))
        = QueryFn ctx (fst (queryFn ctx w3))"
      using fetch_calls [of rt opts queryFn ctx w3] by auto
    show "length (filter isQueryFn (fst (snd (fetch rt opts queryFn ctx w3)))) = 1"
      by (rule fetch_once)
  }
  {
    assume "num_sub (Fin now) (to_number (timestamp pq)) = the_maxAge opts
        \<and> truthy_timestamp (timestamp pq) \<and> persistedQuery.buster pq = the_buster opts"
    moreover have "\<not> num_gt a a" for a
      by (cases a) auto
    ultimately have "lookup rt opts ctx w =
        (Inr (Some (data (state pq))), [GetItem h got, Build key h (state pq)],
         build (queryClient opts) key h (state pq) w2)"
      using found by simp
    then show "createPersister rt opts queryFn ctx w =
        (Inr (data (state pq)), [GetItem h got, Build key h (state pq)],
         build (queryClient opts) key h (state pq) w2)"
      by (rule createPersister_restored)
  }
qed

theorem expired_record_removed_witness:
  "createPersister memoryRuntime (memoryOptions (storedRecord (Some (Fin 3000)) ''v1'') (Fin 1000))
      fetchTodos todos world0
    = (Inr (JStr ''fetched''),
       [GetItem ''todos'' (Returns (Inr (Some ''stored''))),
        RemoveItem ''todos'' (Returns (Inr ())),
        QueryFn todos (Returns (Inr (JStr ''fetched''))),
        SetItem ''todos'' ''written'' (Returns (Inr ()))],
       \<lparr> store = [(''todos'', ''written'')], cache = [], clock = 5003 \<rparr>)
   \<and> createPersister memoryRuntime (memoryOptions (storedRecord (Some (Fin 4000)) ''v1'') (Fin 1000))
      fetchTodos todos world0
    = (Inr (JStr ''cached''),
       [GetItem ''todos'' (Returns (Inr (Some ''stored''))),
        Build (JStr ''todos'') ''todos''
          (persistedQuery.state (storedRecord (Some (Fin 4000)) ''v1''))],
       \<lparr> store = [(''todos'', ''stored'')],
         cache = [(''todos'', persistedQuery.state (storedRecord (Some (Fin 4000)) ''v1''))],
         clock = 5001 \<rparr>)"
  using
    expired_record_removed
      [where opts = "memoryOptions (storedRecord (Some (Fin 3000)) ''v1'') (Fin 1000)"
        and st = memoryStorage and ctx = todos and key = "JStr ''todos''"
        and rt = memoryRuntime and h = "''todos''" and w = world0
        and got = "Returns (Inr (Some ''stored''))" and ?w1.0 = world0 and s = "''stored''"
        and pq = "storedRecord (Some (Fin 3000)) ''v1''" and now = 5000
        and ?w2.0 = "world0\<lparr>clock := 5001\<rparr>" and removed = "Returns (Inr ())"
        and ?w3.0 = "world0\<lparr>clock := 5001, store := []\<rparr>" and queryFn = fetchTodos]
    expired_record_removed
      [where opts = "memoryOptions (storedRecord (Some (Fin 4000)) ''v1'') (Fin 1000)"
        and st = memoryStorage and ctx = todos and key = "JStr ''todos''"
        and rt = memoryRuntime and h = "''todos''" and w = world0
        and got = "Returns (Inr (Some ''stored''))" and ?w1.0 = world0 and s = "''stored''"
        and pq = "storedRecord (Some (Fin 4000)) ''v1''" and now = 5000
        and ?w2.0 = "world0\<lparr>clock := 5001\<rparr>" and removed = "Returns (Inr ())"
        and ?w3.0 = "world0\<lparr>clock := 5001, store := []\<rparr>" and queryFn = fetchTodos]
  by (simp add: fixtures fetch_def persist_def Let_def exact_int_def)

text \<open>
  C5: a record found in the storage whose buster is not the configured one is removed and
  the query function is called, as for an expired record and whatever its timestamp: the
  run is the one of the expired case.
\<close>

theorem busted_record_removed:
  assumes "storage opts = Some st"
    and "queryFunctionContext.queryKey ctx = key" and "hashKey rt key = h"
    and "no_data (getQueryState (queryClient opts) key w)"
    and "getItem st h w = (got, w1)"
    and "await got = Inr (Some s)" and "s \<noteq> []"
    and "the_deserialize rt opts s = Inr (Some pq)"
    and "Date_now rt w1 = (now, w2)"
    and "removeItem st h (if truthy_timestamp (timestamp pq) then w2 else w1) = (removed, w3)"
    and "persistedQuery.buster pq \<noteq> the_buster opts"
  shows "createPersister rt opts queryFn ctx w =
      (case await removed of
         Inl e \<Rightarrow> (Inl e, [GetItem h got, RemoveItem h removed], w3)
       | Inr u \<Rightarrow>
           (case fetch rt opts queryFn ctx w3 of
              (r, fetching, w4) \<Rightarrow> (r, [GetItem h got, RemoveItem h removed] @ fetching, w4)))
    \<and> hd (fst (snd (fetch rt opts queryFn ctx w3)))
        = QueryFn ctx (fst (queryFn ctx w3))
    \<and> length (filter isQueryFn (fst (snd (fetch rt opts queryFn ctx w3)))) = 1"
proof (intro conjI)
  have "lookup rt opts ctx w =
      (case await removed of
         Inl e \<Rightarrow> (Inl e, [GetItem h got, RemoveItem h removed], w3)
       | Inr u \<Rightarrow> (Inr None, [GetItem h got, RemoveItem h removed], w3))"
    using assms(11) by (simp add: lookup_found [OF assms(1-10)])
  then show "createPersister rt opts queryFn ctx w =
      (case await removed of
         Inl e \<Rightarrow> (Inl e, [GetItem h got, RemoveItem h removed], w3)
       | Inr u \<Rightarrow>
           (case fetch rt opts queryFn ctx w3 of
              (r, fetching, w4) \<Rightarrow> (r, [GetItem h got, RemoveItem h removed] @ fetching, w4)))"
    by (rule discard_then_fetch)
  show "hd (fst (snd (fetch rt opts queryFn ctx w3)))
      = QueryFn ctx (fst (queryFn ctx w3))"
    using fetch_calls [of rt opts queryFn ctx w3] by auto
  show "length (filter isQueryFn (fst (snd (fetch rt opts queryFn ctx w3)))) = 1"
    by (rule fetch_once)
qed

theorem busted_record_removed_witness:
  "createPersister memoryRuntime (memoryOptions (storedRecord (Some (Fin 4999)) ''v0'') (Fin 1000))
      fetchTodos todos world0
    = (Inr (JStr ''fetched''),
       [GetItem ''todos'' (Returns (Inr (Some ''stored''))),
        RemoveItem ''todos'' (Returns (Inr ())),
        QueryFn todos (Returns (Inr (JStr ''fetched''))),
        SetItem ''todos'' ''written'' (Returns (Inr ()))],
       \<lparr> store = [(''todos'', ''written'')], cache = [], clock = 5003 \<rparr>)"
  using
    busted_record_removed
      [where opts = "memoryOptions (storedRecord (Some (Fin 4999)) ''v0'') (Fin 1000)"
        and st = memoryStorage and ctx = todos and key = "JStr ''todos''"
        and rt = memoryRuntime and h = "''todos''" and w = world0
        and got = "Returns (Inr (Some ''stored''))" and ?w1.0 = world0 and s = "''stored''"
        and pq = "storedRecord (Some (Fin 4999)) ''v0''" and now = 5000
        and ?w2.0 = "world0\<lparr>clock := 5001\<rparr>"
        and removed = "Returns (Inr ())"
        and ?w3.0 = "world0\<lparr>clock := 5001, store := []\<rparr>" and queryFn = fetchTodos]
  by (simp add: fixtures fetch_def persist_def Let_def)

section \<open>Records without a usable timestamp\<close>

text \<open>
  C6, as the specification states it, ends on: a malformed record is never fatal to the
  invocation. Nothing catches what \<^verbatim>\<open>deserialize\<close> throws on line 80, nor the
  \<^verbatim>\<open>TypeError\<close> of line 82: a stored text that is not JSON, and the stored text
  \<^verbatim>\<open>null\<close>, make the wrapper reject; the entry stays in the storage and the query
  function is not called.
\<close>

theorem unreadable_entry_counterexample:
  "createPersister memoryRuntime (memoryOptions (storedRecord None ''v1'') (Fin 1000))
      fetchTodos todos (world0\<lparr>store := [(''todos'', ''not json'')]\<rparr>)
    = (Inl (JStr ''SyntaxError''),
       [GetItem ''todos'' (Returns (Inr (Some ''not json'')))],
       \<lparr> store = [(''todos'', ''not json'')], cache = [], clock = 5000 \<rparr>)
   \<and> createPersister memoryRuntime (memoryOptions (storedRecord None ''v1'') (Fin 1000))
      fetchTodos todos (world0\<lparr>store := [(''todos'', ''null'')]\<rparr>)
    = (Inl TypeError,
       [GetItem ''todos'' (Returns (Inr (Some ''null'')))],
       \<lparr> store = [(''todos'', ''null'')], cache = [], clock = 5000 \<rparr>)"
  by (simp add: runs fixtures)

text \<open>
  C6, amended: a record found in the storage (the live cache holds no data for the key,
  a storage is configured, \<^verbatim>\<open>getItem\<close> gives a string that is not empty and
  \<^verbatim>\<open>deserialize\<close> gives a value that is not \<^verbatim>\<open>null\<close>) that has no timestamp is
  removed; once the removal has resolved, the wrapper goes on with lines 104 to 132,
  which call the query function first, and it settles as they do: such a record never
  makes the wrapper reject. When \<^verbatim>\<open>deserialize\<close> throws on the stored text, the wrapper
  rejects with what it threw, and when it gives \<^verbatim>\<open>null\<close>, with a \<^verbatim>\<open>TypeError\<close>; in both
  cases \<^verbatim>\<open>getItem\<close> is the only call made.
\<close>

theorem missing_timestamp_removed:
  assumes "storage opts = Some st"
    and "queryFunctionContext.queryKey ctx = key" and "hashKey rt key = h"
    and "no_data (getQueryState (queryClient opts) key w)"
    and "getItem st h w = (got, w1)"
    and "await got = Inr (Some s)" and "s \<noteq> []"
    and "removeItem st h w1 = (removed, w2)"
  shows "(the_deserialize rt opts s = Inr (Some pq) \<and> timestamp pq = None
            \<and> await removed = Inr u \<longrightarrow>
          createPersister rt opts queryFn ctx w =
            (case fetch rt opts queryFn ctx w2 of
               (r, fetching, w3) \<Rightarrow> (r, [GetItem h got, RemoveItem h removed] @ fetching, w3))
          \<and> hd (fst (snd (fetch rt opts queryFn ctx w2)))
              = QueryFn ctx (fst (queryFn ctx w2))
          \<and> fst (createPersister rt opts queryFn ctx w) = fst (fetch rt opts queryFn ctx w2))
    \<and> (the_deserialize rt opts s = Inl e \<longrightarrow>
          createPersister rt opts queryFn ctx w = (Inl e, [GetItem h got], w1))
    \<and> (the_deserialize rt opts s = Inr None \<longrightarrow>
          createPersister rt opts queryFn ctx w = (Inl TypeError, [GetItem h got], w1))"
proof (intro conjI impI)
  have look: "lookup rt opts ctx w = restore rt opts st ctx w"
    using assms(1,2,4) by (simp add: lookup_restore)
  {
    assume a: "the_deserialize rt opts s = Inr (Some pq) \<and> timestamp pq = None
        \<and> await removed = Inr u"
    then have "\<not> truthy_timestamp (timestamp pq)"
      by simp
    from unstamped_then_fetch [OF assms(1-7) _ this assms(8)] a
    have run: "createPersister rt opts queryFn ctx w =
        (case fetch rt opts queryFn ctx w2 of
           (r, fetching, w3) \<Rightarrow> (r, [GetItem h got, RemoveItem h removed] @ fetching, w3))"
      by simp
    then show "createPersister rt opts queryFn ctx w =
        (case fetch rt opts queryFn ctx w2 of
           (r, fetching, w3) \<Rightarrow> (r, [GetItem h got, RemoveItem h removed] @ fetching, w3))" .
    show "hd (fst (snd (fetch rt opts queryFn ctx w2)))
        = QueryFn ctx (fst (queryFn ctx w2))"
      using fetch_calls [of rt opts queryFn ctx w2] by auto
    show "fst (createPersister rt opts queryFn ctx w)
        = fst (fetch rt opts queryFn ctx w2)"
      by (simp add: run split: prod.splits)
  }
  {
    assume "the_deserialize rt opts s = Inl e"
    from restore_thrown [OF assms(2,3,5,6,7) this] look
    show "createPersister rt opts queryFn ctx w = (Inl e, [GetItem h got], w1)"
      by (simp add: createPersister_rejected)
  }
  {
    assume "the_deserialize rt opts s = Inr None"
    from restore_null [OF assms(2,3,5,6,7) this] look
    show "createPersister rt opts queryFn ctx w = (Inl TypeError, [GetItem h got], w1)"
      by (simp add: createPersister_rejected)
  }
qed

theorem missing_timestamp_removed_witness:
  "createPersister memoryRuntime (memoryOptions (storedRecord None ''v1'') (Fin 1000))
      fetchTodos todos world0
    = (Inr (JStr ''fetched''),
       [GetItem ''todos'' (Returns (Inr (Some ''stored''))),
        RemoveItem ''todos'' (Returns (Inr ())),
        QueryFn todos (Returns (Inr (JStr ''fetched''))),
        SetItem ''todos'' ''written'' (Returns (Inr ()))],
       \<lparr> store = [(''todos'', ''written'')], cache = [], clock = 5002 \<rparr>)
   \<and> createPersister memoryRuntime (memoryOptions (storedRecord None ''v1'') (Fin 1000))
      fetchTodos todos (world0\<lparr>store := [(''todos'', ''garbled'')]\<rparr>)
    = (Inl (JStr ''SyntaxError''),
       [GetItem ''todos'' (Returns (Inr (Some ''garbled'')))],
       \<lparr> store = [(''todos'', ''garbled'')], cache = [], clock = 5000 \<rparr>)"
  using
    missing_timestamp_removed
      [where opts = "memoryOptions (storedRecord None ''v1'') (Fin 1000)"
        and st = memoryStorage and ctx = todos and key = "JStr ''todos''"
        and rt = memoryRuntime and h = "''todos''" and w = world0
        and got = "Returns (Inr (Some ''stored''))" and ?w1.0 = world0 and s = "''stored''"
        and pq = "storedRecord None ''v1''"
        and removed = "Returns (Inr ())"
        and ?w2.0 = "world0\<lparr>store := []\<rparr>" and u = "()" and queryFn = fetchTodos]
    missing_timestamp_removed
      [where opts = "memoryOptions (storedRecord None ''v1'') (Fin 1000)"
        and st = memoryStorage and ctx = todos and key = "JStr ''todos''"
        and rt = memoryRuntime and h = "''todos''"
        and w = "world0\<lparr>store := [(''todos'', ''garbled'')]\<rparr>"
        and got = "Returns (Inr (Some ''garbled''))"
        and ?w1.0 = "world0\<lparr>store := [(''todos'', ''garbled'')]\<rparr>" and s = "''garbled''"
        and e = "JStr ''SyntaxError''"
        and removed = "Returns (Inr ())"
        and ?w2.0 = "world0\<lparr>store := []\<rparr>" and queryFn = fetchTodos]
  by (simp add: fixtures fetch_def persist_def Let_def)

text \<open>
  C10: a record whose timestamp is present and falsy (\<^verbatim>\<open>0\<close>, or \<^verbatim>\<open>NaN\<close>) is treated as
  the record without a timestamp: it is removed and the query function is called.
\<close>

theorem falsy_timestamp_removed:
  assumes "storage opts = Some st"
    and "queryFunctionContext.queryKey ctx = key" and "hashKey rt key = h"
    and "no_data (getQueryState (queryClient opts) key w)"
    and "getItem st h w = (got, w1)"
    and "await got = Inr (Some s)" and "s \<noteq> []"
    and "the_deserialize rt opts s = Inr (Some pq)"
    and "timestamp pq = Some ts" and "\<not> truthy_num ts"
    and "removeItem st h w1 = (removed, w2)"
    and "await removed = Inr u"
  shows "createPersister rt opts queryFn ctx w =
      (case fetch rt opts queryFn ctx w2 of
         (r, fetching, w3) \<Rightarrow> (r, [GetItem h got, RemoveItem h removed] @ fetching, w3))
    \<and> hd (fst (snd (fetch rt opts queryFn ctx w2)))
        = QueryFn ctx (fst (queryFn ctx w2))"
proof -
  have "\<not> truthy_timestamp (timestamp pq)"
    using assms(9,10) by auto
  from unstamped_then_fetch [OF assms(1-8) this assms(11,12)]
  have "createPersister rt opts queryFn ctx w =
      (case fetch rt opts queryFn ctx w2 of
         (r, fetching, w3) \<Rightarrow> (r, [GetItem h got, RemoveItem h removed] @ fetching, w3))" .
  moreover have "hd (fst (snd (fetch rt opts queryFn ctx w2)))
      = QueryFn ctx (fst (queryFn ctx w2))"
    using fetch_calls [of rt opts queryFn ctx w2] by auto
  ultimately show ?thesis
    by simp
qed

theorem falsy_timestamp_removed_witness:
  "createPersister memoryRuntime (memoryOptions (storedRecord (Some (Fin 0)) ''v1'') (Fin 1000))
      fetchTodos todos world0
    = (Inr (JStr ''fetched''),
       [GetItem ''todos'' (Returns (Inr (Some ''stored''))),
        RemoveItem ''todos'' (Returns (Inr ())),
        QueryFn todos (Returns (Inr (JStr ''fetched''))),
        SetItem ''todos'' ''written'' (Returns (Inr ()))],
       \<lparr> store = [(''todos'', ''written'')], cache = [], clock = 5002 \<rparr>)"
  using
    falsy_timestamp_removed
      [where opts = "memoryOptions (storedRecord (Some (Fin 0)) ''v1'') (Fin 1000)"
        and st = memoryStorage and ctx = todos and key = "JStr ''todos''"
        and rt = memoryRuntime and h = "''todos''" and w = world0
        and got = "Returns (Inr (Some ''stored''))" and ?w1.0 = world0 and s = "''stored''"
        and pq = "storedRecord (Some (Fin 0)) ''v1''" and ts = "Fin 0"
        and removed = "Returns (Inr ())"
        and ?w2.0 = "world0\<lparr>store := []\<rparr>" and u = "()" and queryFn = fetchTodos]
  by (simp add: fixtures fetch_def persist_def Let_def)

section \<open>Failures\<close>

text \<open>
  C3, as the specification states it, has every rejection of \<^verbatim>\<open>getItem\<close>,
  \<^verbatim>\<open>removeItem\<close> or \<^verbatim>\<open>setItem\<close> reach the caller. Line 107 calls \<^verbatim>\<open>setItem\<close> and does
  not await it: when the promise it returns is rejected, the wrapper still resolves with
  the fetched result.
\<close>

theorem dropped_write_rejection_counterexample:
  "createPersister memoryRuntime
      ((memoryOptions (storedRecord (Some (Fin 4500)) ''v1'') (Fin 1000))
         \<lparr>storage := Some (stubStorage (Returns (Inr None)) (Returns (Inr ()))
            (Returns (Inl (JStr ''QuotaExceededError''))))\<rparr>)
      fetchTodos todos world0
    = (Inr (JStr ''fetched''),
       [GetItem ''todos'' (Returns (Inr None)),
        QueryFn todos (Returns (Inr (JStr ''fetched''))),
        SetItem ''todos'' ''written'' (Returns (Inl (JStr ''QuotaExceededError'')))],
       world0\<lparr>clock := 5002\<rparr>)"
  by (simp add: runs fixtures stubStorage_def)

text \<open>
  C3, amended: in every run, a rejection (or a synchronous throw) of a \<^verbatim>\<open>getItem\<close> or a
  \<^verbatim>\<open>removeItem\<close> the wrapper called is the rejection of the wrapper, and so is a
  synchronous throw of \<^verbatim>\<open>setItem\<close>.
\<close>

theorem storage_failures_propagate:
  assumes "createPersister rt opts queryFn ctx w = (r, calls, w')"
  shows "(\<forall>k got e. GetItem k got \<in> set calls \<longrightarrow> await got = Inl e \<longrightarrow> r = Inl e)
    \<and> (\<forall>k removed e. RemoveItem k removed \<in> set calls \<longrightarrow> await removed = Inl e \<longrightarrow> r = Inl e)
    \<and> (\<forall>k v e. SetItem k v (Throws e) \<in> set calls \<longrightarrow> r = Inl e)"
proof -
  obtain looked cs w1 where look: "lookup rt opts ctx w = (looked, cs, w1)"
    by (cases "lookup rt opts ctx w")
  have quiet: "filter isSetItem cs = []"
    using lookup_calls [OF look] by simp
  have no_set: "SetItem k v sent \<notin> set cs" for k v sent
    using quiet by (rule not_in_filtered) simp
  show ?thesis
  proof (cases "looked = Inr None")
    case False
    with look assms have "(\<exists>e. looked = Inl e \<and> r = Inl e) \<or> (\<exists>v. looked = Inr (Some v))"
      and "calls = cs"
      by (auto simp: createPersister_def split: sum.splits option.splits)
    with lookup_failures [OF look] no_set show ?thesis
      by auto
  next
    case True
    obtain r2 fetching w2 where f: "fetch rt opts queryFn ctx w1 = (r2, fetching, w2)"
      by (cases "fetch rt opts queryFn ctx w1")
    with True look assms have run: "r = r2" "calls = cs @ fetching"
      by (simp_all add: createPersister_def)
    have "await got \<noteq> Inl e" if "GetItem k got \<in> set cs" for k got e
      using lookup_failures [OF look] that True by auto
    moreover have "await removed \<noteq> Inl e" if "RemoveItem k removed \<in> set cs" for k removed e
      using lookup_failures [OF look] that True by auto
    ultimately show ?thesis
      using fetch_failures [OF f] no_set run by auto
  qed
qed

theorem storage_failures_propagate_witness:
  "createPersister memoryRuntime
      ((memoryOptions (storedRecord (Some (Fin 3000)) ''v1'') (Fin 1000))
         \<lparr>storage := Some (stubStorage (Returns (Inl (JStr ''SecurityError''))) (Returns (Inr ()))
            (Returns (Inr ())))\<rparr>)
      fetchTodos todos world0
    = (Inl (JStr ''SecurityError''),
       [GetItem ''todos'' (Returns (Inl (JStr ''SecurityError'')))], world0)
   \<and> createPersister memoryRuntime
      ((memoryOptions (storedRecord (Some (Fin 3000)) ''v1'') (Fin 1000))
         \<lparr>storage := Some (stubStorage (Returns (Inr (Some ''stored'')))
            (Returns (Inl (JStr ''SecurityError''))) (Returns (Inr ())))\<rparr>)
      fetchTodos todos world0
    = (Inl (JStr ''SecurityError''),
       [GetItem ''todos'' (Returns (Inr (Some ''stored''))),
        RemoveItem ''todos'' (Returns (Inl (JStr ''SecurityError'')))],
       world0\<lparr>clock := 5001\<rparr>)
   \<and> createPersister memoryRuntime
      ((memoryOptions (storedRecord (Some (Fin 3000)) ''v1'') (Fin 1000))
         \<lparr>storage := Some (stubStorage (Returns (Inr None)) (Returns (Inr ()))
            (Throws (JStr ''QuotaExceededError'')))\<rparr>)
      fetchTodos todos world0
    = (Inl (JStr ''QuotaExceededError''),
       [GetItem ''todos'' (Returns (Inr None)),
        QueryFn todos (Returns (Inr (JStr ''fetched''))),
        SetItem ''todos'' ''written'' (Throws (JStr ''QuotaExceededError''))],
       world0\<lparr>clock := 5002\<rparr>)"
proof -
  let ?run = "\<lambda>st. createPersister memoryRuntime
      ((memoryOptions (storedRecord (Some (Fin 3000)) ''v1'') (Fin 1000))\<lparr>storage := Some st\<rparr>)
      fetchTodos todos world0"
  let ?reads = "stubStorage (Returns (Inl (JStr ''SecurityError''))) (Returns (Inr ()))
      (Returns (Inr ()))"
  let ?removes = "stubStorage (Returns (Inr (Some ''stored'')))
      (Returns (Inl (JStr ''SecurityError''))) (Returns (Inr ()))"
  let ?writes = "stubStorage (Returns (Inr None)) (Returns (Inr ()))
      (Throws (JStr ''QuotaExceededError''))"
  have calls:
    "snd (?run ?reads) = ([GetItem ''todos'' (Returns (Inl (JStr ''SecurityError'')))], world0)"
    "snd (?run ?removes) =
      ([GetItem ''todos'' (Returns (Inr (Some ''stored''))),
        RemoveItem ''todos'' (Returns (Inl (JStr ''SecurityError'')))],
       world0\<lparr>clock := 5001\<rparr>)"
    "snd (?run ?writes) =
      ([GetItem ''todos'' (Returns (Inr None)),
        QueryFn todos (Returns (Inr (JStr ''fetched''))),
        SetItem ''todos'' ''written'' (Throws (JStr ''QuotaExceededError''))],
       world0\<lparr>clock := 5002\<rparr>)"
    by (simp_all add: runs fixtures stubStorage_def)
  have "fst (?run ?reads) = Inl (JStr ''SecurityError'')"
  proof -
    have "?run ?reads = (fst (?run ?reads), fst (snd (?run ?reads)), snd (snd (?run ?reads)))"
      by simp
    from storage_failures_propagate [OF this] calls(1) show ?thesis
      by simp
  qed
  moreover have "fst (?run ?removes) = Inl (JStr ''SecurityError'')"
  proof -
    have "?run ?removes = (fst (?run ?removes), fst (snd (?run ?removes)), snd (snd (?run ?removes)))"
      by simp
    from storage_failures_propagate [OF this] calls(2) show ?thesis
      by simp
  qed
  moreover have "fst (?run ?writes) = Inl (JStr ''QuotaExceededError'')"
  proof -
    have "?run ?writes = (fst (?run ?writes), fst (snd (?run ?writes)), snd (snd (?run ?writes)))"
      by simp
    from storage_failures_propagate [OF this] calls(3) show ?thesis
      by simp
  qed
  ultimately show ?thesis
    using calls by (simp add: prod_eq_iff)
qed

text \<open>
  C9: in every run in which the query function was called and rejected, the wrapper
  rejects with the same value, the call of the query function is the last call it made,
  after the lookup fell through, so the world is the one the query function left, and
  \<^verbatim>\<open>setItem\<close> was not called.
\<close>

theorem fetch_failure_propagates:
  assumes "createPersister rt opts queryFn ctx w = (r, calls, w')"
    and "QueryFn c fetched \<in> set calls" and "await fetched = Inl e"
  shows "r = Inl e
    \<and> (\<exists>cs w1. lookup rt opts ctx w = (Inr None, cs, w1)
          \<and> queryFn ctx w1 = (fetched, w')
          \<and> calls = cs @ [QueryFn ctx fetched])
    \<and> (\<forall>k v sent. SetItem k v sent \<notin> set calls)"
proof -
  obtain looked cs w1 where look: "lookup rt opts ctx w = (looked, cs, w1)"
    by (cases "lookup rt opts ctx w")
  have quiet: "filter isQueryFn cs = []" "filter isSetItem cs = []"
    using lookup_calls [OF look] by simp_all
  have no_query: "QueryFn c fetched \<notin> set cs"
    using quiet(1) by (rule not_in_filtered) simp
  have fell: "looked = Inr None"
  proof (cases looked)
    case (Inl x)
    with look assms(1) have "calls = cs"
      by (simp add: createPersister_def)
    with assms(2) no_query show ?thesis
      by simp
  next
    case (Inr o1)
    show ?thesis
    proof (cases o1)
      case None
      with Inr show ?thesis by simp
    next
      case (Some v)
      with Inr look assms(1) have "calls = cs"
        by (simp add: createPersister_def)
      with assms(2) no_query show ?thesis
        by simp
    qed
  qed
  obtain f w2 where called: "queryFn ctx w1 = (f, w2)"
    by (cases "queryFn ctx w1")
  have same: "f = fetched \<and> await f = Inl e"
  proof (cases "await f")
    case (Inl x)
    from fetch_rejected [of queryFn ctx w1 f w2 x rt opts, OF called Inl] look fell assms(1)
    have "calls = cs @ [QueryFn ctx f]"
      by (simp add: createPersister_def)
    with assms(2,3) no_query Inl show ?thesis
      by auto
  next
    case (Inr v)
    obtain r2 written w3 where p: "persist rt opts ctx v w2 = (r2, written, w3)"
      by (cases "persist rt opts ctx v w2")
    have "filter isQueryFn written = []"
      using p by (auto simp: persist_def Let_def split: option.splits prod.splits sum.splits call.splits)
    then have "QueryFn c fetched \<notin> set written"
      by (rule not_in_filtered) simp
    moreover have "calls = cs @ QueryFn ctx f # written"
      using look fell assms(1) called Inr p by (simp add: createPersister_def fetch_def)
    ultimately have "f = fetched"
      using assms(2) no_query by auto
    with Inr assms(3) show ?thesis
      by simp
  qed
  from same called have called': "queryFn ctx w1 = (fetched, w2)"
    by simp
  then have "fetch rt opts queryFn ctx w1 = (Inl e, [QueryFn ctx fetched], w2)"
    using assms(3) by (simp add: fetch_def)
  with look fell assms(1)
  have run: "r = Inl e" "calls = cs @ [QueryFn ctx fetched]" "w' = w2"
    by (simp_all add: createPersister_def)
  have "SetItem k v sent \<notin> set cs" for k v sent
    using quiet(2) by (rule not_in_filtered) simp
  then have "SetItem k v sent \<notin> set calls" for k v sent
    using run by simp
  with run look fell called' show ?thesis
    by auto
qed

theorem fetch_failure_propagates_witness:
  "createPersister memoryRuntime (memoryOptions (storedRecord (Some (Fin 3000)) ''v1'') (Fin 1000))
      failTodos todos world0
    = (Inl (JStr ''offline''),
       [GetItem ''todos'' (Returns (Inr (Some ''stored''))),
        RemoveItem ''todos'' (Returns (Inr ())),
        QueryFn todos (Returns (Inl (JStr ''offline'')))],
       \<lparr> store = [], cache = [], clock = 5001 \<rparr>)"
proof -
  let ?run = "createPersister memoryRuntime
      (memoryOptions (storedRecord (Some (Fin 3000)) ''v1'') (Fin 1000)) failTodos todos world0"
  have rest: "snd (?run) =
      ([GetItem ''todos'' (Returns (Inr (Some ''stored''))),
        RemoveItem ''todos'' (Returns (Inr ())),
        QueryFn todos (Returns (Inl (JStr ''offline'')))],
       \<lparr> store = [], cache = [], clock = 5001 \<rparr>)"
    by (simp add: runs fixtures failTodos_def)
  have "?run = (fst ?run, fst (snd ?run), snd (snd ?run))"
    by simp
  from fetch_failure_propagates
    [OF this, of todos "Returns (Inl (JStr ''offline''))" "JStr ''offline''"] rest
  have "fst ?run = Inl (JStr ''offline'')"
    by simp
  with rest show ?thesis
    by (simp add: prod_eq_iff)
qed

section \<open>The write-back\<close>

text \<open>
  C4, as the specification states it, has the wrapper write the record and return the
  fetch result whenever the query function resolved and a storage is configured. The
  record is serialized first, on line 108, and nothing catches what the serializer
  throws (as \<^verbatim>\<open>JSON.stringify\<close> does on a \<^verbatim>\<open>BigInt\<close> or on a cycle): then \<^verbatim>\<open>setItem\<close>
  is not called and the wrapper rejects. Nor is the fetch result returned when
  \<^verbatim>\<open>setItem\<close> itself throws.
\<close>

theorem failed_serializer_counterexample:
  "createPersister memoryRuntime
      ((memoryOptions (storedRecord (Some (Fin 3000)) ''v1'') (Fin 1000))
         \<lparr>serialize := Some failSerialize\<rparr>)
      fetchTodos todos (world0\<lparr>store := []\<rparr>)
    = (Inl (JStr ''TypeError''),
       [GetItem ''todos'' (Returns (Inr None)),
        QueryFn todos (Returns (Inr (JStr ''fetched'')))],
       \<lparr> store = [], cache = [], clock = 5002 \<rparr>)
   \<and> createPersister memoryRuntime
      ((memoryOptions (storedRecord (Some (Fin 3000)) ''v1'') (Fin 1000))
         \<lparr>storage := Some (stubStorage (Returns (Inr None)) (Returns (Inr ()))
            (Throws (JStr ''QuotaExceededError'')))\<rparr>)
      fetchTodos todos (world0\<lparr>store := []\<rparr>)
    = (Inl (JStr ''QuotaExceededError''),
       [GetItem ''todos'' (Returns (Inr None)),
        QueryFn todos (Returns (Inr (JStr ''fetched''))),
        SetItem ''todos'' ''written'' (Throws (JStr ''QuotaExceededError''))],
       \<lparr> store = [], cache = [], clock = 5002 \<rparr>)"
  by (simp add: runs fixtures stubStorage_def failSerialize_def)

text \<open>
  C4, amended: whenever the lookup falls through to line 104 (so the query function is
  called), the query function resolves with \<open>v\<close> and a storage is configured, the
  wrapper reads the clock twice and serializes the record that holds the second reading
  as timestamp, the configured buster, the query key, the query hash and a state whose
  data is \<open>v\<close>, with status success, error null, the counts zero, fetch status idle and
  not invalidated. When the serializer returns, the wrapper calls \<^verbatim>\<open>setItem\<close> under the
  query hash with the serialized record right after the query function and, unless that
  call throws, resolves with \<open>v\<close>, whatever becomes of the promise \<^verbatim>\<open>setItem\<close>
  returned; when the call throws, the wrapper rejects with what it threw. When the
  serializer throws, \<^verbatim>\<open>setItem\<close> is not called and the wrapper rejects with what the
  serializer threw.
\<close>

theorem fetched_result_written:
  assumes "lookup rt opts ctx w = (Inr None, cs, w1)"
    and "queryFn ctx w1 = (fetched, w2)" and "await fetched = Inr v"
    and "storage opts = Some st"
    and "queryFunctionContext.queryKey ctx = key" and "hashKey rt key = h"
    and "Date_now rt w2 = (updatedAt, w3)" and "Date_now rt w3 = (now, w4)"
  shows "createPersister rt opts queryFn ctx w =
      (case the_serialize rt opts (fresh_record v key h updatedAt now (the_buster opts)) of
         Inl e \<Rightarrow> (Inl e, cs @ [QueryFn ctx fetched], w4)
       | Inr serialized \<Rightarrow>
           (case setItem st h serialized w4 of
              (sent, w5) \<Rightarrow>
                ((case sent of Throws e \<Rightarrow> Inl e | Returns p \<Rightarrow> Inr v),
                 cs @ [QueryFn ctx fetched, SetItem h serialized sent], w5)))
    \<and> fresh_record v key h updatedAt now (the_buster opts) =
      \<lparr> persistedQuery.buster = the_buster opts,
        persistedQuery.timestamp = Some (Fin now),
        persistedQuery.queryHash = h,
        persistedQuery.queryKey = key,
        persistedQuery.state =
          \<lparr> data = v, dataUpdateCount = Fin 0, dataUpdatedAt = Fin updatedAt,
            status = Success, error = JNull, errorUpdateCount = Fin 0,
            errorUpdatedAt = Fin 0, fetchFailureCount = Fin 0, fetchFailureReason = JNull,
            fetchMeta = JNull, fetchStatus = Idle, isInvalidated = False \<rparr> \<rparr>"
proof
  show "createPersister rt opts queryFn ctx w =
      (case the_serialize rt opts (fresh_record v key h updatedAt now (the_buster opts)) of
         Inl e \<Rightarrow> (Inl e, cs @ [QueryFn ctx fetched], w4)
       | Inr serialized \<Rightarrow>
           (case setItem st h serialized w4 of
              (sent, w5) \<Rightarrow>
                ((case sent of Throws e \<Rightarrow> Inl e | Returns p \<Rightarrow> Inr v),
                 cs @ [QueryFn ctx fetched, SetItem h serialized sent], w5)))"
    using fetch_resolved [of queryFn ctx w1 fetched w2 v opts st key rt h updatedAt w3 now w4,
        OF assms(2-8)]
    by (simp add: createPersister_fallthrough [OF assms(1)] split: sum.splits prod.splits)
  show "fresh_record v key h updatedAt now (the_buster opts) =
      \<lparr> persistedQuery.buster = the_buster opts,
        persistedQuery.timestamp = Some (Fin now),
        persistedQuery.queryHash = h,
        persistedQuery.queryKey = key,
        persistedQuery.state =
          \<lparr> data = v, dataUpdateCount = Fin 0, dataUpdatedAt = Fin updatedAt,
            status = Success, error = JNull, errorUpdateCount = Fin 0,
            errorUpdatedAt = Fin 0, fetchFailureCount = Fin 0, fetchFailureReason = JNull,
            fetchMeta = JNull, fetchStatus = Idle, isInvalidated = False \<rparr> \<rparr>"
    by (simp add: fresh_record_def)
qed

theorem fetched_result_written_witness:
  "createPersister memoryRuntime (memoryOptions (storedRecord (Some (Fin 3000)) ''v1'') (Fin 1000))
      fetchTodos todos (world0\<lparr>store := []\<rparr>)
    = (Inr (JStr ''fetched''),
       [GetItem ''todos'' (Returns (Inr None)),
        QueryFn todos (Returns (Inr (JStr ''fetched''))),
        SetItem ''todos'' ''written'' (Returns (Inr ()))],
       \<lparr> store = [(''todos'', ''written'')], cache = [], clock = 5002 \<rparr>)"
  using
    fetched_result_written
      [where opts = "memoryOptions (storedRecord (Some (Fin 3000)) ''v1'') (Fin 1000)"
        and st = memoryStorage and ctx = todos and key = "JStr ''todos''"
        and rt = memoryRuntime and h = "''todos''" and w = "world0\<lparr>store := []\<rparr>"
        and cs = "[GetItem ''todos'' (Returns (Inr None))]"
        and ?w1.0 = "world0\<lparr>store := []\<rparr>" and queryFn = fetchTodos
        and fetched = "Returns (Inr (JStr ''fetched''))" and ?w2.0 = "world0\<lparr>store := []\<rparr>"
        and v = "JStr ''fetched''" and updatedAt = 5000
        and ?w3.0 = "world0\<lparr>store := [], clock := 5001\<rparr>" and now = 5001
        and ?w4.0 = "world0\<lparr>store := [], clock := 5002\<rparr>"]
  by (simp add: fixtures lookup_def restore_def Let_def)

section \<open>The parser consumes its input\<close>

text \<open>
  Every successful parse leaves a text shorter than the one it began at, so the length
  comparisons in \<open>parse_elements\<close> and \<open>parse_members\<close> never fail: the two
  functions satisfy their equations without them.
\<close>

lemma parse_chars_consumes: "parse_chars s = Inr (str, rest) \<Longrightarrow> length rest < length s"
proof (induction s arbitrary: str rest rule: parse_chars.induct)
  case 1
  then show ?case by simp
next
  case (2 c cs)
  have cons: "cons_char ch r = Inr (str, rest) \<Longrightarrow> \<exists>str'. r = Inr (str', rest)" for ch r
    by (cases r) auto
  show ?case
  proof (cases "c = dquote")
    case True
    with 2 show ?thesis by simp
  next
    case False
    note nq = this
    show ?thesis
    proof (cases "c = backslash")
      case False
      with nq 2 show ?thesis
        by (auto split: if_splits dest!: cons)
    next
      case True
      with nq 2 show ?thesis
        by (auto split: if_splits list.splits option.splits dest!: cons) fastforce+
    qed
  qed
qed

lemma parse_digits_consumes:
  "parse_digits negative s = Inr (v, rest) \<Longrightarrow> length rest < length s"
proof -
  assume a: "parse_digits negative s = Inr (v, rest)"
  then have "takeWhile is_digit s \<noteq> []" and "rest = dropWhile is_digit s"
    by (auto simp: parse_digits_def Let_def split: if_splits)
  moreover have "length (takeWhile is_digit s) + length (dropWhile is_digit s) = length s"
    by (metis length_append takeWhile_dropWhile_id)
  ultimately show ?thesis
    by (cases "takeWhile is_digit s") auto
qed

lemma parse_digits_no_more: "parse_digits negative s = Inr (v, rest) \<Longrightarrow> length rest \<le> length s"
  using parse_digits_consumes [of negative s v rest] by simp

lemma parse_literal_consumes: "parse_literal s = Inr (v, rest) \<Longrightarrow> length rest < length s"
proof -
  assume a: "parse_literal s = Inr (v, rest)"
  have "s \<noteq> []"
    using a by (auto simp: parse_literal_def)
  moreover have "rest = drop 4 s \<or> rest = drop 5 s"
    using a by (auto simp: parse_literal_def split: if_splits)
  ultimately show ?thesis
    by (cases s) auto
qed

lemma skip_ws_Cons: "skip_ws s = c # cs \<Longrightarrow> length cs < length s"
  using length_skip_ws [of s] by simp

lemma parse_consumes:
  "parse_value s = Inr (v, rest) \<Longrightarrow> length rest < length s"
  "parse_elements s = Inr (vs, rest) \<Longrightarrow> length rest < length s"
  "parse_members s = Inr (ms, rest) \<Longrightarrow> length rest < length s"
proof (induction s and s and s arbitrary: v rest and vs rest and ms rest
    rule: parse_value_parse_elements_parse_members.induct)
  case (1 s)
  show ?case
  proof (cases "skip_ws s")
    case Nil
    with "1.prems" show ?thesis
      by (subst (asm) parse_value.simps) simp
  next
    case (Cons c cs)
    note s = this
    have len: "length cs < length s"
      using s by (rule skip_ws_Cons)
    consider (obj) "c = CHR ''{''" | (arr) "c \<noteq> CHR ''{''" "c = CHR ''[''"
      | (str) "c \<noteq> CHR ''{''" "c \<noteq> CHR ''[''" "c = dquote"
      | (neg) "c \<noteq> CHR ''{''" "c \<noteq> CHR ''[''" "c \<noteq> dquote" "c = CHR ''-''"
      | (num) "c \<noteq> CHR ''{''" "c \<noteq> CHR ''[''" "c \<noteq> dquote" "c \<noteq> CHR ''-''" "is_digit c"
      | (lit) "c \<noteq> CHR ''{''" "c \<noteq> CHR ''[''" "c \<noteq> dquote" "c \<noteq> CHR ''-''" "\<not> is_digit c"
      by blast
    then show ?thesis
    proof cases
      case obj
      show ?thesis
      proof (cases "skip_ws cs")
        case Nil
        with "1.prems" s obj show ?thesis
          by (subst (asm) parse_value.simps) simp
      next
        case (Cons c1 cs1)
        show ?thesis
        proof (cases "c1 = CHR ''}''")
          case True
          with "1.prems" s obj Cons have "rest = cs1"
            by (subst (asm) parse_value.simps) simp
          with skip_ws_Cons [OF Cons] len show ?thesis by simp
        next
          case False
          with "1.prems" s obj Cons obtain ms where "parse_members cs = Inr (ms, rest)"
            by (subst (asm) parse_value.simps) (auto split: sum.splits)
          from "1.IH"(1) [OF s obj Cons False this] len show ?thesis by simp
        qed
      qed
    next
      case arr
      show ?thesis
      proof (cases "skip_ws cs")
        case Nil
        with "1.prems" s arr show ?thesis
          by (subst (asm) parse_value.simps) simp
      next
        case (Cons c1 cs1)
        show ?thesis
        proof (cases "c1 = CHR '']''")
          case True
          with "1.prems" s arr Cons have "rest = cs1"
            by (subst (asm) parse_value.simps) simp
          with skip_ws_Cons [OF Cons] len show ?thesis by simp
        next
          case False
          with "1.prems" s arr Cons obtain vs where "parse_elements cs = Inr (vs, rest)"
            by (subst (asm) parse_value.simps) (auto split: sum.splits)
          from "1.IH"(2) [OF s arr Cons False this] len show ?thesis by simp
        qed
      qed
    next
      case str
      with "1.prems" s obtain k where "parse_chars cs = Inr (k, rest)"
        by (subst (asm) parse_value.simps) (auto split: sum.splits)
      from parse_chars_consumes [OF this] len show ?thesis by simp
    next
      case neg
      with "1.prems" s have "parse_digits True cs = Inr (v, rest)"
        by (subst (asm) parse_value.simps) simp
      from parse_digits_consumes [OF this] len show ?thesis by simp
    next
      case num
      with "1.prems" s have "parse_digits False (c # cs) = Inr (v, rest)"
        by (subst (asm) parse_value.simps) simp
      from parse_digits_consumes [OF this] len show ?thesis by simp
    next
      case lit
      with "1.prems" s have "parse_literal (c # cs) = Inr (v, rest)"
        by (subst (asm) parse_value.simps) simp
      from parse_literal_consumes [OF this] len show ?thesis by simp
    qed
  qed
next
  case (2 s)
  from "2.prems" obtain v r where v: "parse_value s = Inr (v, r)"
    by (subst (asm) parse_elements.simps) (auto split: sum.splits)
  from "2.IH"(1) [OF this] have r: "length r < length s" .
  from "2.prems" v obtain c cs where c: "skip_ws r = c # cs"
    by (subst (asm) parse_elements.simps) (auto split: list.splits)
  from skip_ws_Cons [OF c] r have len: "length cs < length s" by simp
  show ?case
  proof (cases "c = CHR '']''")
    case True
    with "2.prems" v c have "rest = cs"
      by (subst (asm) parse_elements.simps) simp
    with len show ?thesis by simp
  next
    case False
    with "2.prems" v c len obtain vs' where comma: "c = CHR '',''"
      and p: "parse_elements cs = Inr (vs', rest)"
      by (subst (asm) parse_elements.simps) (auto split: sum.splits if_splits)
    from comma len have g: "c = CHR '','' \<and> length cs < length s" by simp
    from "2.IH"(2) [OF v refl c False g p] len show ?thesis by simp
  qed
next
  case (3 s)
  from "3.prems" obtain q cs where q: "skip_ws s = q # cs" "q = dquote"
    by (subst (asm) parse_members.simps) (auto split: list.splits if_splits)
  from "3.prems" q obtain k r where k: "parse_chars cs = Inr (k, r)"
    by (subst (asm) parse_members.simps) (auto split: sum.splits)
  from "3.prems" q k obtain colon cs1 where colon: "skip_ws r = colon # cs1"
    by (subst (asm) parse_members.simps) (auto split: list.splits)
  from "3.prems" q k colon have g1: "colon = CHR '':'' \<and> length cs1 < length s"
    by (subst (asm) parse_members.simps) (auto split: if_splits)
  from "3.prems" q k colon g1 obtain v r1 where v: "parse_value cs1 = Inr (v, r1)"
    by (subst (asm) parse_members.simps) (auto split: sum.splits)
  from "3.IH"(1) [OF q(1) q(2) k refl colon g1 v] g1 have r1: "length r1 < length s" by simp
  from "3.prems" q k colon g1 v obtain c cs2 where c: "skip_ws r1 = c # cs2"
    by (subst (asm) parse_members.simps) (auto split: list.splits)
  from skip_ws_Cons [OF c] r1 have len: "length cs2 < length s" by simp
  show ?case
  proof (cases "c = CHR ''}''")
    case True
    with "3.prems" q k colon g1 v c have "rest = cs2"
      by (subst (asm) parse_members.simps) simp
    with len show ?thesis by simp
  next
    case False
    with "3.prems" q k colon g1 v c obtain ms' where comma: "c = CHR '',''"
      and p: "parse_members cs2 = Inr (ms', rest)"
      by (subst (asm) parse_members.simps) (auto split: sum.splits if_splits)
    from comma len have g: "c = CHR '','' \<and> length cs2 < length s" by simp
    from "3.IH"(2) [OF q(1) q(2) k refl colon g1 v refl c False g p] len show ?thesis by simp
  qed
qed

lemma parse_elements_unguarded:
  "parse_elements s =
    (case parse_value s of
       Inl e \<Rightarrow> Inl e
     | Inr (v, rest) \<Rightarrow>
         (case skip_ws rest of
            [] \<Rightarrow> Inl SyntaxError
          | c # cs \<Rightarrow>
              if c = CHR '']'' then Inr ([v], cs)
              else if c = CHR '','' then
                (case parse_elements cs of
                   Inl e \<Rightarrow> Inl e
                 | Inr (vs, rest1) \<Rightarrow> Inr (v # vs, rest1))
              else Inl SyntaxError))"
proof (cases "parse_value s")
  case (Inl e)
  then show ?thesis
    by (subst parse_elements.simps) simp
next
  case (Inr p)
  obtain v rest where p: "p = (v, rest)" by (cases p)
  with Inr have r: "length rest < length s"
    by (simp add: parse_consumes(1))
  show ?thesis
  proof (cases "skip_ws rest")
    case Nil
    with Inr p show ?thesis
      by (subst parse_elements.simps) simp
  next
    case (Cons c cs)
    with skip_ws_Cons [OF Cons] r have "length cs < length s" by simp
    with Inr p Cons show ?thesis
      by (subst parse_elements.simps) simp
  qed
qed

lemma parse_members_unguarded:
  "parse_members s =
    (case skip_ws s of
       [] \<Rightarrow> Inl SyntaxError
     | q # cs \<Rightarrow>
         if q = dquote then
           (case parse_chars cs of
              Inl e \<Rightarrow> Inl e
            | Inr (k, rest) \<Rightarrow>
                (case skip_ws rest of
                   [] \<Rightarrow> Inl SyntaxError
                 | colon # cs1 \<Rightarrow>
                     if colon = CHR '':'' then
                       (case parse_value cs1 of
                          Inl e \<Rightarrow> Inl e
                        | Inr (v, rest1) \<Rightarrow>
                            (case skip_ws rest1 of
                               [] \<Rightarrow> Inl SyntaxError
                             | c # cs2 \<Rightarrow>
                                 if c = CHR ''}'' then Inr ([(k, v)], cs2)
                                 else if c = CHR '','' then
                                   (case parse_members cs2 of
                                      Inl e \<Rightarrow> Inl e
                                    | Inr (ms, rest2) \<Rightarrow> Inr ((k, v) # ms, rest2))
                                 else Inl SyntaxError))
                     else Inl SyntaxError))
         else Inl SyntaxError)"
proof (cases "skip_ws s")
  case Nil
  then show ?thesis
    by (subst parse_members.simps) simp
next
  case (Cons q cs)
  note s = this
  from skip_ws_Cons [OF s] have l0: "length cs < length s" .
  show ?thesis
  proof (cases "parse_chars cs")
    case (Inl e)
    with s show ?thesis
      by (subst parse_members.simps) simp
  next
    case (Inr p)
    obtain k rest where p: "p = (k, rest)" by (cases p)
    with Inr have l1: "length rest < length cs"
      by (simp add: parse_chars_consumes)
    show ?thesis
    proof (cases "skip_ws rest")
      case Nil
      with s Inr p show ?thesis
        by (subst parse_members.simps) simp
    next
      case (Cons colon cs1)
      note colon = this
      from skip_ws_Cons [OF colon] l0 l1 have l2: "length cs1 < length s" by simp
      show ?thesis
      proof (cases "parse_value cs1")
        case (Inl e)
        with s Inr p colon l2 show ?thesis
          by (subst parse_members.simps) simp
      next
        case (Inr p1)
        note v = this
        obtain v1 rest1 where p1: "p1 = (v1, rest1)" by (cases p1)
        with v have l3: "length rest1 < length cs1"
          by (simp add: parse_consumes(1))
        show ?thesis
        proof (cases "skip_ws rest1")
          case Nil
          with s \<open>parse_chars cs = Inr p\<close> p colon l2 v p1 show ?thesis
            by (subst parse_members.simps) simp
        next
          case (Cons c cs2)
          from skip_ws_Cons [OF Cons] l2 l3 have "length cs2 < length s" by simp
          with s \<open>parse_chars cs = Inr p\<close> p colon l2 v p1 Cons show ?thesis
            by (subst parse_members.simps) simp
        qed
      qed
    qed
  qed
qed

section \<open>The default encoding gives a fresh record back\<close>



















lemma skip_ws_start: "starts_value t \<Longrightarrow> skip_ws (t @ r) = t @ r"
  by (cases t) (simp_all add: starts_value_def)

lemma skip_ws_delimiter [simp]:
  "skip_ws (CHR '','' # r) = CHR '','' # r"
  "skip_ws (CHR '']'' # r) = CHR '']'' # r"
  "skip_ws (CHR ''}'' # r) = CHR ''}'' # r"
  "skip_ws (CHR '':'' # r) = CHR '':'' # r"
  by (simp_all add: is_ws_def)

lemma delimited_simps [simp]:
  "delimited []" "delimited (CHR '','' # r)" "delimited (CHR '']'' # r)" "delimited (CHR ''}'' # r)"
  by (simp_all add: delimited_def)









lemma starts_value_simps [simp]:
  "starts_value (CHR ''n'' # r)" "starts_value (CHR ''t'' # r)" "starts_value (CHR ''f'' # r)"
  "starts_value (CHR ''['' # r)" "starts_value (CHR ''{'' # r)" "starts_value (dquote # r)"
  "starts_value (CHR ''-'' # r)"
  by (simp_all add: starts_value_def is_ws_def)

















end
